theory Spec2Isabelle
  imports Main
begin

section \<open>Paths\<close>

text \<open>
  A path is an absolute, normalised POSIX path, kept as the list of its components
  (the root is the empty list). Every path the placement engine hands to the
  filesystem primitives is the result of \<^verbatim>\<open>path.resolve\<close>, hence of this form.
\<close>

type_synonym path = "string list"

definition dirname :: "path \<Rightarrow> path" where
  "dirname p = butlast p"

definition join :: "path \<Rightarrow> string \<Rightarrow> path" where
  "join d n = d @ [n]"

text \<open>The text of a path, as it appears in messages.\<close>

definition path_string :: "path \<Rightarrow> string" where
  "path_string p = (if p = [] then ''/'' else concat (map (\<lambda>c. CHR ''/'' # c) p))"

definition path_bytes :: "path \<Rightarrow> nat" where
  "path_bytes p = sum_list (map (\<lambda>c. Suc (length c)) p)"

definition PATH_MAX :: nat where
  "PATH_MAX = 4096"

fun common_prefix :: "path \<Rightarrow> path \<Rightarrow> nat" where
  "common_prefix (x # xs) (y # ys) = (if x = y then Suc (common_prefix xs ys) else 0)"
| "common_prefix _ _ = 0"

text \<open>
  \<^verbatim>\<open>path.relative(from, to)\<close> on normalised absolute paths: the number of leading
  \<^verbatim>\<open>..\<close> steps and the components that follow them.
\<close>

definition relative :: "path \<Rightarrow> path \<Rightarrow> nat \<times> string list" where
  "relative from to =
     (let k = common_prefix from to in (length from - k, drop k to))"

text \<open>
  \<^verbatim>\<open>path.resolve(projectRoot, outputPath)\<close>: an output that starts with a slash is
  taken from the root, any other from the project root; empty and \<^verbatim>\<open>.\<close> segments
  are dropped and \<^verbatim>\<open>..\<close> steps to the parent.
\<close>

fun split_slash :: "string \<Rightarrow> string \<Rightarrow> string list" where
  "split_slash acc [] = [rev acc]"
| "split_slash acc (c # cs) =
     (if c = CHR ''/'' then rev acc # split_slash [] cs else split_slash (c # acc) cs)"

fun normalize_onto :: "path \<Rightarrow> string list \<Rightarrow> path" where
  "normalize_onto cur [] = cur"
| "normalize_onto cur (s # ss) =
     (if s = [] \<or> s = ''.'' then normalize_onto cur ss
      else if s = ''..'' then normalize_onto (butlast cur) ss
      else normalize_onto (cur @ [s]) ss)"

definition resolve_path :: "path \<Rightarrow> string \<Rightarrow> path" where
  "resolve_path root out =
     (case out of
        [] \<Rightarrow> root
      | c # cs \<Rightarrow>
          if c = CHR ''/'' then normalize_onto [] (split_slash [] out)
          else normalize_onto root (split_slash [] out))"

section \<open>The filesystem seen through node:fs/promises\<close>

datatype errno = ENOENT | EACCES | EPERM | EEXIST | ENOTDIR | EISDIR | ELOOP | ENAMETOOLONG

text \<open>
  A node is a regular file with its bytes, a directory, or a symbolic link. The link
  stores its relative target as \<^verbatim>\<open>path.relative\<close> produced it: the number of
  \<^verbatim>\<open>..\<close> steps and the components below.
  The table lists the nodes by real path, the most recent entry for a path first;
  nothing in this program deletes a node.
\<close>

datatype node = File string | Dir | Symlink nat "string list"

type_synonym fstab = "(path \<times> node) list"

definition node_at :: "fstab \<Rightarrow> path \<Rightarrow> node option" where
  "node_at fs p = (if p = [] then Some Dir else map_of fs p)"

datatype outcome = Found path node | Missing path "string list" | Failed errno

text \<open>
  Path resolution as the kernel does it, following every symbolic link on the way (at
  most \<open>h\<close> of them, then \<open>ELOOP\<close>). \<open>cur\<close> is the real path of the directory reached
  so far. \<open>Missing q rest\<close> says that the entry with real path \<open>q\<close> does not exist
  and that \<open>rest\<close> was still to be walked below it.
\<close>

fun walk_from :: "nat \<Rightarrow> fstab \<Rightarrow> path \<Rightarrow> string list \<Rightarrow> outcome" where
  "walk_from h fs cur [] =
     (case node_at fs cur of None \<Rightarrow> Failed ENOENT | Some n \<Rightarrow> Found cur n)"
| "walk_from h fs cur (c # cs) =
     (case node_at fs (cur @ [c]) of
        None \<Rightarrow> Missing (cur @ [c]) cs
      | Some (File b) \<Rightarrow> if cs = [] then Found (cur @ [c]) (File b) else Failed ENOTDIR
      | Some Dir \<Rightarrow> walk_from h fs (cur @ [c]) cs
      | Some (Symlink ups downs) \<Rightarrow>
          (case h of
             0 \<Rightarrow> Failed ELOOP
           | Suc h' \<Rightarrow> walk_from h' fs (take (length cur - ups) cur) (downs @ cs)))"

definition MAXSYMLINKS :: nat where
  "MAXSYMLINKS = 40"

text \<open>Every system call refuses a path longer than \<open>PATH_MAX\<close> bytes.\<close>

definition walk :: "fstab \<Rightarrow> path \<Rightarrow> outcome" where
  "walk fs p =
     (if PATH_MAX < path_bytes p then Failed ENAMETOOLONG
      else walk_from MAXSYMLINKS fs [] p)"

text \<open>Resolution that does not follow a link in the last component (\<^verbatim>\<open>lstat\<close>).\<close>

definition lwalk :: "fstab \<Rightarrow> path \<Rightarrow> outcome" where
  "lwalk fs p =
     (if PATH_MAX < path_bytes p then Failed ENAMETOOLONG
      else if p = [] then Found [] Dir
      else case walk fs (butlast p) of
             Found rp Dir \<Rightarrow>
               (case node_at fs (rp @ [last p]) of
                  None \<Rightarrow> Missing (rp @ [last p]) []
                | Some n \<Rightarrow> Found (rp @ [last p]) n)
           | Found rp _ \<Rightarrow> Failed ENOTDIR
           | Missing _ _ \<Rightarrow> Failed ENOENT
           | Failed e \<Rightarrow> Failed e)"

definition fs_stat :: "fstab \<Rightarrow> path \<Rightarrow> errno + node" where
  "fs_stat fs p =
     (case walk fs p of
        Found _ n \<Rightarrow> Inr n
      | Missing _ _ \<Rightarrow> Inl ENOENT
      | Failed e \<Rightarrow> Inl e)"

definition fs_readFile :: "fstab \<Rightarrow> path \<Rightarrow> errno + string" where
  "fs_readFile fs p =
     (case walk fs p of
        Found _ (File b) \<Rightarrow> Inr b
      | Found _ _ \<Rightarrow> Inl EISDIR
      | Missing _ _ \<Rightarrow> Inl ENOENT
      | Failed e \<Rightarrow> Inl e)"

text \<open>
  \<^verbatim>\<open>writeFile\<close> opens the destination for writing, creating it when only its last
  component is missing, and replaces the bytes.
\<close>

definition fs_writeFile :: "fstab \<Rightarrow> path \<Rightarrow> string \<Rightarrow> errno + fstab" where
  "fs_writeFile fs p b =
     (case walk fs p of
        Found rp (File _) \<Rightarrow> Inr ((rp, File b) # fs)
      | Found _ _ \<Rightarrow> Inl EISDIR
      | Missing rp [] \<Rightarrow> Inr ((rp, File b) # fs)
      | Missing _ (_ # _) \<Rightarrow> Inl ENOENT
      | Failed e \<Rightarrow> Inl e)"

definition fs_copyFile :: "fstab \<Rightarrow> path \<Rightarrow> path \<Rightarrow> errno + fstab" where
  "fs_copyFile fs src dest =
     (case fs_readFile fs src of
        Inl e \<Rightarrow> Inl e
      | Inr b \<Rightarrow> fs_writeFile fs dest b)"

fun mkdirs :: "path \<Rightarrow> string list \<Rightarrow> fstab \<Rightarrow> fstab" where
  "mkdirs q [] fs = (q, Dir) # fs"
| "mkdirs q (c # cs) fs = mkdirs (q @ [c]) cs ((q, Dir) # fs)"

text \<open>\<^verbatim>\<open>mkdir(p, {recursive: true})\<close>.\<close>

definition fs_mkdir_p :: "fstab \<Rightarrow> path \<Rightarrow> errno + fstab" where
  "fs_mkdir_p fs p =
     (case walk fs p of
        Found _ Dir \<Rightarrow> Inr fs
      | Found _ _ \<Rightarrow> Inl EEXIST
      | Missing q rest \<Rightarrow> Inr (mkdirs q rest fs)
      | Failed e \<Rightarrow> Inl e)"

text \<open>
  \<^verbatim>\<open>symlink(target, path, type)\<close>: refused with \<open>EPERM\<close> where the platform does
  not let the process create links, with \<open>EEXIST\<close> where the path names any node
  at all. The type only matters on Windows and is not stored.
\<close>

datatype SymlinkType = SymlinkFile | SymlinkDir | SymlinkJunction

definition fs_symlink ::
  "bool \<Rightarrow> fstab \<Rightarrow> nat \<times> string list \<Rightarrow> path \<Rightarrow> SymlinkType \<Rightarrow> errno + fstab" where
  "fs_symlink permitted fs target p ty =
     (if \<not> permitted then Inl EPERM
      else if target = (0, []) then Inl ENOENT
      else case lwalk fs p of
        Found _ _ \<Rightarrow> Inl EEXIST
      | Missing q [] \<Rightarrow> Inr ((q, Symlink (fst target) (snd target)) # fs)
      | Missing _ (_ # _) \<Rightarrow> Inl ENOENT
      | Failed e \<Rightarrow> Inl e)"

text \<open>\<^verbatim>\<open>readdir(p, {withFileTypes: true})\<close>: the names in a directory, each with its node.\<close>

definition children :: "fstab \<Rightarrow> path \<Rightarrow> string list" where
  "children fs d = remdups (map (\<lambda>(q, n). last q) (filter (\<lambda>(q, n). q \<noteq> [] \<and> butlast q = d) fs))"

definition fs_readdir :: "fstab \<Rightarrow> path \<Rightarrow> errno + (string \<times> node) list" where
  "fs_readdir fs p =
     (case walk fs p of
        Found rp Dir \<Rightarrow>
          Inr (concat (map (\<lambda>n. case node_at fs (rp @ [n]) of None \<Rightarrow> [] | Some x \<Rightarrow> [(n, x)])
                        (children fs rp)))
      | Found _ _ \<Rightarrow> Inl ENOTDIR
      | Missing _ _ \<Rightarrow> Inl ENOENT
      | Failed e \<Rightarrow> Inl e)"

section \<open>Errors (errors.ts, plugins/errors.ts)\<close>

text \<open>
  The values the program throws: the error classes of the repository, the system
  error of node:fs (with its code, system call and path), a plain \<^verbatim>\<open>Error\<close>, and a
  thrown value that is no \<^verbatim>\<open>Error\<close> at all (kept as what \<^verbatim>\<open>String\<close> makes of it).
\<close>

datatype js_error =
    NodeError errno string path
  | PlainError string
  | ConfigurationError string "string option"
  | ResourceError string "string option"
  | ValidationError string "string option"
  | FileOperationError string string string
  | PluginError string string
  | PluginNotFoundError string
  | Thrown string

definition errno_name :: "errno \<Rightarrow> string" where
  "errno_name e =
     (case e of
        ENOENT \<Rightarrow> ''ENOENT'' | EACCES \<Rightarrow> ''EACCES'' | EPERM \<Rightarrow> ''EPERM''
      | EEXIST \<Rightarrow> ''EEXIST'' | ENOTDIR \<Rightarrow> ''ENOTDIR'' | EISDIR \<Rightarrow> ''EISDIR''
      | ELOOP \<Rightarrow> ''ELOOP'' | ENAMETOOLONG \<Rightarrow> ''ENAMETOOLONG'')"

definition error_message :: "js_error \<Rightarrow> string" where
  "error_message x =
     (case x of
        NodeError e syscall p \<Rightarrow> errno_name e @ '': '' @ syscall @ '' '' @ path_string p
      | PlainError m \<Rightarrow> m
      | ConfigurationError m _ \<Rightarrow> m
      | ResourceError m _ \<Rightarrow> m
      | ValidationError m _ \<Rightarrow> m
      | FileOperationError m _ _ \<Rightarrow> m
      | PluginError m pluginName \<Rightarrow> ''Plugin \"'' @ pluginName @ ''\": '' @ m
      | PluginNotFoundError pluginName \<Rightarrow> ''Plugin not found: '' @ pluginName
      | Thrown s \<Rightarrow> s)"

definition formatError :: "js_error \<Rightarrow> string" where
  "formatError x = error_message x"

section \<open>The world\<close>

datatype Platform = Win32 | Darwin | Linux

datatype level = Info | Error | Warn | Success | Skip

record world =
  files :: fstab
  cwd :: path
  platform :: Platform
  symlinkPermitted :: bool
  console :: "string list"
  logged :: "(level \<times> string) list"

type_synonym 'a result = "(js_error + 'a) \<times> world"

section \<open>Filesystem primitives of the engine (file.ts)\<close>

record copied =
  created :: bool
  updated :: bool

definition pathExists :: "world \<Rightarrow> path \<Rightarrow> bool" where
  "pathExists w p = (case fs_stat (files w) p of Inl _ \<Rightarrow> False | Inr _ \<Rightarrow> True)"

text \<open>\<^verbatim>\<open>isDirectory(path)\<close> of file.ts; the suffix keeps it apart from the field of a fetched resource.\<close>

definition isDirectory_path :: "world \<Rightarrow> path \<Rightarrow> bool" where
  "isDirectory_path w p = (case fs_stat (files w) p of Inr Dir \<Rightarrow> True | _ \<Rightarrow> False)"

definition mkdir_failed :: "path \<Rightarrow> js_error" where
  "mkdir_failed dirPath =
     FileOperationError (''Failed to create directory: '' @ path_string dirPath)
       (path_string dirPath) ''create directory''"

definition ensureDirectoryExists :: "path \<Rightarrow> world \<Rightarrow> unit result" where
  "ensureDirectoryExists dirPath w =
     (case fs_mkdir_p (files w) dirPath of
        Inr fs' \<Rightarrow> (Inr (), w\<lparr>files := fs'\<rparr>)
      | Inl code \<Rightarrow>
          if code \<noteq> EEXIST
          then (Inl (mkdir_failed dirPath), w)
          else (Inr (), w))"

text \<open>
  The two reads of \<^verbatim>\<open>copyFile\<close> when the destination exists and may be overwritten:
  the source first, then the destination, and the comparison of the two buffers.
\<close>

definition same_bytes :: "world \<Rightarrow> path \<Rightarrow> path \<Rightarrow> js_error + bool" where
  "same_bytes w src dest =
     (case fs_readFile (files w) src of
        Inl e \<Rightarrow> Inl (NodeError e ''open'' src)
      | Inr srcContent \<Rightarrow>
          (case fs_readFile (files w) dest of
             Inl e \<Rightarrow> Inl (NodeError e ''open'' dest)
           | Inr destContent \<Rightarrow> Inr (srcContent = destContent)))"

definition copyFile :: "path \<Rightarrow> path \<Rightarrow> bool \<Rightarrow> world \<Rightarrow> copied result" where
  "copyFile src dest overwrite w =
     (let exists = pathExists w dest in
      if exists \<and> \<not> overwrite then (Inr \<lparr>created = False, updated = False\<rparr>, w)
      else
        case (if exists \<and> overwrite then same_bytes w src dest else Inr False) of
          Inl e \<Rightarrow> (Inl e, w)
        | Inr True \<Rightarrow> (Inr \<lparr>created = False, updated = False\<rparr>, w)
        | Inr False \<Rightarrow>
            (case ensureDirectoryExists (dirname dest) w of
               (Inl e, w1) \<Rightarrow> (Inl e, w1)
             | (Inr _, w1) \<Rightarrow>
                 (case fs_copyFile (files w1) src dest of
                    Inl e \<Rightarrow> (Inl (NodeError e ''copyfile'' dest), w1)
                  | Inr fs' \<Rightarrow>
                      if exists \<and> overwrite
                      then (Inr \<lparr>created = False, updated = True\<rparr>, w1\<lparr>files := fs'\<rparr>)
                      else (Inr \<lparr>created = True, updated = False\<rparr>, w1\<lparr>files := fs'\<rparr>))))"

text \<open>
  \<^verbatim>\<open>copyDirectory\<close> returns the numbers of entries created and skipped. The loop over
  the directory entries is \<open>copyEntries\<close>, with the two counters as accumulators; an
  entry that is neither a directory nor a regular file is passed over.
  The recursion ends because every call works on a longer destination path and
  \<open>ensureDirectoryExists\<close> refuses a path beyond \<open>PATH_MAX\<close>.
\<close>

record dir_copied =
  dir_created :: nat
  dir_skipped :: nat

definition depth_left :: "path \<Rightarrow> nat" where
  "depth_left p = Suc PATH_MAX - path_bytes p"

function copyDirectory :: "path \<Rightarrow> path \<Rightarrow> bool \<Rightarrow> world \<Rightarrow> dir_copied result"
  and copyEntries ::
    "(string \<times> node) list \<Rightarrow> path \<Rightarrow> path \<Rightarrow> bool \<Rightarrow> nat \<Rightarrow> nat \<Rightarrow> world \<Rightarrow> dir_copied result"
where
  "copyDirectory srcDir destDir overwrite w =
     (case ensureDirectoryExists destDir w of
        (Inl e, w1) \<Rightarrow> (Inl e, w1)
      | (Inr _, w1) \<Rightarrow>
          (case fs_readdir (files w1) srcDir of
             Inl e \<Rightarrow> (Inl (NodeError e ''scandir'' srcDir), w1)
           | Inr entries \<Rightarrow> copyEntries entries srcDir destDir overwrite 0 0 w1))"
| "copyEntries [] srcDir destDir overwrite created' skipped' w =
     (Inr \<lparr>dir_created = created', dir_skipped = skipped'\<rparr>, w)"
| "copyEntries (entry # entries) srcDir destDir overwrite created' skipped' w =
     (let srcPath = join srcDir (fst entry); destPath = join destDir (fst entry) in
      case snd entry of
        Dir \<Rightarrow>
          (case copyDirectory srcPath destPath overwrite w of
             (Inl e, w') \<Rightarrow> (Inl e, w')
           | (Inr result, w') \<Rightarrow>
               copyEntries entries srcDir destDir overwrite
                 (created' + dir_created result) (skipped' + dir_skipped result) w')
      | File _ \<Rightarrow>
          (case copyFile srcPath destPath overwrite w of
             (Inl e, w') \<Rightarrow> (Inl e, w')
           | (Inr result, w') \<Rightarrow>
               if copied.created result \<or> updated result
               then copyEntries entries srcDir destDir overwrite (created' + 1) skipped' w'
               else copyEntries entries srcDir destDir overwrite created' (skipped' + 1) w')
      | Symlink _ _ \<Rightarrow> copyEntries entries srcDir destDir overwrite created' skipped' w)"
  by pat_completeness auto
termination
proof (relation "(\<lambda>x. case x of
                     Inl (s, d, ov, w) \<Rightarrow> (if depth_left d = 0 then 0 else 2 * depth_left d + 1)
                   | Inr (es, s, d, ov, c, k, w) \<Rightarrow> (if depth_left d = 0 then 1 else 2 * depth_left d))
                  <*mlex*> measure (\<lambda>x. case x of Inl _ \<Rightarrow> 0 | Inr (es, s, d, ov, c, k, w) \<Rightarrow> length es)")
  show "wf ((\<lambda>x. case x of
                     Inl (s, d, ov, w) \<Rightarrow> (if depth_left d = 0 then 0 else 2 * depth_left d + 1)
                   | Inr (es, s, d, ov, c, k, w) \<Rightarrow> (if depth_left d = 0 then 1 else 2 * depth_left d))
                  <*mlex*> measure (\<lambda>x. case x of Inl _ \<Rightarrow> 0 | Inr (es, s, d, ov, c, k, w) \<Rightarrow> length es))"
    by (simp add: wf_mlex)
next
  fix srcDir destDir :: path and overwrite :: bool and w w1 :: world
    and x :: "js_error + unit" and u :: unit and entries :: "(string \<times> node) list"
  assume a: "(x, w1) = ensureDirectoryExists destDir w" "x = Inr u"
  have "path_bytes destDir \<le> PATH_MAX"
    using a
    by (auto simp: ensureDirectoryExists_def fs_mkdir_p_def walk_def
             split: if_splits sum.splits outcome.splits node.splits)
  then have "depth_left destDir \<noteq> 0" by (simp add: depth_left_def)
  then show "(Inr (entries, srcDir, destDir, overwrite, 0, 0, w1), Inl (srcDir, destDir, overwrite, w))
       \<in> (\<lambda>x. case x of
                     Inl (s, d, ov, w) \<Rightarrow> (if depth_left d = 0 then 0 else 2 * depth_left d + 1)
                   | Inr (es, s, d, ov, c, k, w) \<Rightarrow> (if depth_left d = 0 then 1 else 2 * depth_left d))
                  <*mlex*> measure (\<lambda>x. case x of Inl _ \<Rightarrow> 0 | Inr (es, s, d, ov, c, k, w) \<Rightarrow> length es)"
    by (simp add: mlex_prod_def)
next
  fix entry :: "string \<times> node" and entries srcDir destDir and overwrite :: bool
    and created' skipped' :: nat and w :: world and srcPath destPath :: path
  assume "srcPath = join srcDir (fst entry)" "destPath = join destDir (fst entry)"
  then have "depth_left destPath < depth_left destDir
             \<or> (depth_left destDir = 0 \<and> depth_left destPath = 0)"
    by (auto simp: depth_left_def join_def path_bytes_def)
  then show "(Inl (srcPath, destPath, overwrite, w),
              Inr (entry # entries, srcDir, destDir, overwrite, created', skipped', w))
       \<in> (\<lambda>x. case x of
                     Inl (s, d, ov, w) \<Rightarrow> (if depth_left d = 0 then 0 else 2 * depth_left d + 1)
                   | Inr (es, s, d, ov, c, k, w) \<Rightarrow> (if depth_left d = 0 then 1 else 2 * depth_left d))
                  <*mlex*> measure (\<lambda>x. case x of Inl _ \<Rightarrow> 0 | Inr (es, s, d, ov, c, k, w) \<Rightarrow> length es)"
    by (auto simp: mlex_prod_def)
qed (auto simp: mlex_prod_def)

record linked = copied +
  usedSymlink :: bool

text \<open>The warning of the fallback and the error thrown when the fallback fails too.\<close>

definition symlink_warning :: "errno \<Rightarrow> path \<Rightarrow> string" where
  "symlink_warning code dest =
     ''Symlink failed ('' @ errno_name code @ ''), falling back to copy: '' @ path_string dest"

definition both_failed :: "path \<Rightarrow> js_error" where
  "both_failed dest =
     FileOperationError (''Both symlink and copy operations failed for: '' @ path_string dest)
       (path_string dest) ''symlink or copy''"

definition symlinkOrCopy :: "path \<Rightarrow> path \<Rightarrow> bool \<Rightarrow> bool \<Rightarrow> world \<Rightarrow> linked result" where
  "symlinkOrCopy src dest overwrite isDir w =
     (let exists = pathExists w dest in
      if exists \<and> \<not> overwrite
      then (Inr \<lparr>created = False, updated = False, usedSymlink = False\<rparr>, w)
      else
        case ensureDirectoryExists (dirname dest) w of
          (Inl e, w1) \<Rightarrow> (Inl e, w1)
        | (Inr _, w1) \<Rightarrow>
            (let symlinkType =
                   (if isDir
                    then (if platform w1 = Win32 then SymlinkJunction else SymlinkDir)
                    else SymlinkFile);
                 relativeSrc = relative (dirname dest) src
             in case fs_symlink (symlinkPermitted w1) (files w1) relativeSrc dest symlinkType of
                  Inr fs' \<Rightarrow>
                    if exists \<and> overwrite
                    then (Inr \<lparr>created = False, updated = True, usedSymlink = True\<rparr>,
                          w1\<lparr>files := fs'\<rparr>)
                    else (Inr \<lparr>created = True, updated = False, usedSymlink = True\<rparr>,
                          w1\<lparr>files := fs'\<rparr>)
                | Inl code \<Rightarrow>
                    (let w2 = w1\<lparr>console := console w1 @ [symlink_warning code dest]\<rparr>
                     in if isDir
                        then (case copyDirectory src dest overwrite w2 of
                                (Inr result, w3) \<Rightarrow>
                                  (Inr \<lparr>created = (dir_created result > 0 \<and> \<not> exists),
                                        updated = (dir_created result > 0 \<and> exists),
                                        usedSymlink = False\<rparr>, w3)
                              | (Inl fallbackError, w3) \<Rightarrow>
                                  (Inl (both_failed dest), w3))
                        else (case copyFile src dest overwrite w2 of
                                (Inr result, w3) \<Rightarrow>
                                  (Inr \<lparr>created = created result, updated = updated result,
                                        usedSymlink = False\<rparr>, w3)
                              | (Inl fallbackError, w3) \<Rightarrow>
                                  (Inl (both_failed dest), w3)))))"

text \<open>
  \<^verbatim>\<open>writeTextFile\<close>. The text is kept as its UTF-8 bytes, so that reading a file as
  text gives back what was written. A failed read of the existing destination is
  swallowed and the write goes ahead.
\<close>

definition writeTextFile :: "path \<Rightarrow> string \<Rightarrow> bool \<Rightarrow> world \<Rightarrow> copied result" where
  "writeTextFile dest content overwrite w =
     (let exists = pathExists w dest in
      if exists \<and> \<not> overwrite then (Inr \<lparr>created = False, updated = False\<rparr>, w)
      else if exists \<and> overwrite \<and>
              (case fs_readFile (files w) dest of
                 Inr existingContent \<Rightarrow> existingContent = content
               | Inl _ \<Rightarrow> False)
      then (Inr \<lparr>created = False, updated = False\<rparr>, w)
      else
        case ensureDirectoryExists (dirname dest) w of
          (Inl e, w1) \<Rightarrow> (Inl e, w1)
        | (Inr _, w1) \<Rightarrow>
            (case fs_writeFile (files w1) dest content of
               Inl e \<Rightarrow> (Inl (NodeError e ''open'' dest), w1)
             | Inr fs' \<Rightarrow>
                 if exists \<and> overwrite
                 then (Inr \<lparr>created = False, updated = True\<rparr>, w1\<lparr>files := fs'\<rparr>)
                 else (Inr \<lparr>created = True, updated = False\<rparr>, w1\<lparr>files := fs'\<rparr>)))"

section \<open>Plugins and the registry (plugins/types.ts, plugins/registry.ts)\<close>

datatype meta_value = MetaBool bool | MetaString string | MetaOther

type_synonym PluginMetadata = "(string \<times> meta_value) list"

text \<open>
  What a plugin's \<^verbatim>\<open>fetch\<close> returns; every field is optional. A local path is the
  absolute path the plugin resolved.
\<close>

record PluginResult =
  content :: "string option"
  localPath :: "path option"
  isDirectory :: "bool option"
  metadata :: "PluginMetadata option"

text \<open>
  A plugin, as far as the fetch orchestrator and the registry use it: its name and its
  \<^verbatim>\<open>fetch\<close>, which takes the plugin configuration and the project root of the context
  and may do anything to the world. \<open>'c\<close> is the type of plugin configurations.
\<close>

record 'c Plugin =
  name :: string
  fetch :: "'c \<Rightarrow> path \<Rightarrow> world \<Rightarrow> PluginResult result"

type_synonym 'c registry = "string \<rightharpoonup> 'c Plugin"

definition register :: "'c registry \<Rightarrow> 'c Plugin \<Rightarrow> 'c registry" where
  "register plugins plugin = plugins(name plugin \<mapsto> plugin)"

definition registry_resolve :: "'c registry \<Rightarrow> string \<Rightarrow> js_error + 'c Plugin" where
  "registry_resolve plugins n =
     (case plugins n of None \<Rightarrow> Inl (PluginNotFoundError n) | Some plugin \<Rightarrow> Inr plugin)"

definition has :: "'c registry \<Rightarrow> string \<Rightarrow> bool" where
  "has plugins n = (plugins n \<noteq> None)"

definition unregister :: "'c registry \<Rightarrow> string \<Rightarrow> bool \<times> 'c registry" where
  "unregister plugins n = (plugins n \<noteq> None, plugins(n := None))"

definition clear :: "'c registry \<Rightarrow> 'c registry" where
  "clear plugins = Map.empty"











section \<open>The fetch orchestrator (resource.ts)\<close>

record 'c ValidatedResource =
  plugin :: string
  pluginConfig :: 'c
  overwrite :: bool
  outputs :: "string list"

text \<open>
  A fetched resource; \<open>definition_of\<close> is the field \<^verbatim>\<open>definition\<close>. The orchestrator
  always sets \<^verbatim>\<open>isDirectory\<close>, so it is a plain boolean here.
\<close>

record 'c FetchedResource =
  definition_of :: "'c ValidatedResource"
  localPath :: "path option"
  isDirectory :: bool
  content :: "string option"
  pluginMetadata :: "PluginMetadata option"

definition is_ResourceError :: "js_error \<Rightarrow> bool" where
  "is_ResourceError e = (case e of ResourceError _ _ \<Rightarrow> True | _ \<Rightarrow> False)"

text \<open>The two wrappers of the orchestrator around an error that is no \<^verbatim>\<open>ResourceError\<close>.\<close>

definition plugin_fetch_failed :: "string \<Rightarrow> js_error \<Rightarrow> js_error" where
  "plugin_fetch_failed pluginName error =
     ResourceError (''Failed to fetch with plugin \"'' @ pluginName @ ''\": '' @ formatError error)
       (Some pluginName)"

definition resource_fetch_failed :: "js_error \<Rightarrow> js_error" where
  "resource_fetch_failed error =
     ResourceError (''Failed to fetch resource: '' @ formatError error) None"

definition fetchSingleResource ::
  "'c registry \<Rightarrow> 'c ValidatedResource \<Rightarrow> path \<Rightarrow> world \<Rightarrow> 'c FetchedResource result" where
  "fetchSingleResource plugins definition' projectRoot w =
     (case registry_resolve plugins (plugin definition') of
        Inl e \<Rightarrow> (Inl e, w)
      | Inr plugin' \<Rightarrow>
          (case fetch plugin' (pluginConfig definition') projectRoot w of
             (Inr result, w') \<Rightarrow>
               (Inr \<lparr>definition_of = definition',
                     localPath = PluginResult.localPath result,
                     isDirectory = (case PluginResult.isDirectory result of
                                      Some b \<Rightarrow> b | None \<Rightarrow> False),
                     content = PluginResult.content result,
                     pluginMetadata = metadata result\<rparr>, w')
           | (Inl error, w') \<Rightarrow>
               if is_ResourceError error then (Inl error, w')
               else (Inl (plugin_fetch_failed (plugin definition') error), w')))"

text \<open>The loop of \<^verbatim>\<open>fetchResources\<close>, with the list built so far.\<close>

fun fetchLoop ::
  "'c registry \<Rightarrow> 'c ValidatedResource list \<Rightarrow> path \<Rightarrow> 'c FetchedResource list \<Rightarrow> world
     \<Rightarrow> 'c FetchedResource list result" where
  "fetchLoop plugins [] projectRoot fetchedResources w = (Inr fetchedResources, w)"
| "fetchLoop plugins (definition' # rest) projectRoot fetchedResources w =
     (case fetchSingleResource plugins definition' projectRoot w of
        (Inr fetched, w') \<Rightarrow> fetchLoop plugins rest projectRoot (fetchedResources @ [fetched]) w'
      | (Inl error, w') \<Rightarrow>
          if is_ResourceError error then (Inl error, w')
          else (Inl (resource_fetch_failed error), w'))"

definition fetchResources ::
  "'c registry \<Rightarrow> 'c ValidatedResource list \<Rightarrow> path \<Rightarrow> world \<Rightarrow> 'c FetchedResource list result" where
  "fetchResources plugins resources projectRoot w = fetchLoop plugins resources projectRoot [] w"

section \<open>The placement engine (commands/sync.ts)\<close>

record SyncResult =
  sync_created :: nat
  sync_updated :: nat
  sync_skipped :: nat
  sync_errors :: "string list"

record placed =
  placed_created :: nat
  placed_updated :: nat

definition logger_emit :: "level \<Rightarrow> string \<Rightarrow> world \<Rightarrow> world" where
  "logger_emit l message w = w\<lparr>logged := logged w @ [(l, message)]\<rparr>"

text \<open>The marks of the messages, as their UTF-8 bytes: check mark, ballot x, warning sign, bullet.\<close>

definition check_mark :: string where
  "check_mark = [CHR 0xE2, CHR 0x9C, CHR 0x93]"

definition ballot_x :: string where
  "ballot_x = [CHR 0xE2, CHR 0x9C, CHR 0x97]"

definition warning_sign :: string where
  "warning_sign = [CHR 0xE2, CHR 0x9A, CHR 0xA0]"

definition bullet :: string where
  "bullet = [CHR 0xE2, CHR 0x80, CHR 0xA2]"

definition bool_count :: "bool \<Rightarrow> nat" where
  "bool_count b = (if b then 1 else 0)"

definition wants_symlink :: "'c FetchedResource \<Rightarrow> bool" where
  "wants_symlink fetchedResource =
     (plugin (definition_of fetchedResource) = ''local'' \<and>
      (case pluginMetadata fetchedResource of
         None \<Rightarrow> False
       | Some m \<Rightarrow> map_of m ''symlink'' = Some (MetaBool True)))"

definition placeResourceAtOutput :: "'c FetchedResource \<Rightarrow> path \<Rightarrow> world \<Rightarrow> placed result" where
  "placeResourceAtOutput fetchedResource outputPath w =
     (let overwrite' = overwrite (definition_of fetchedResource) in
      case content fetchedResource of
        Some content' \<Rightarrow>
          (case writeTextFile outputPath content' overwrite' w of
             (Inl e, w') \<Rightarrow> (Inl e, w')
           | (Inr result, w') \<Rightarrow>
               (Inr \<lparr>placed_created = bool_count (created result),
                     placed_updated = bool_count (updated result)\<rparr>, w'))
      | None \<Rightarrow>
          (case localPath fetchedResource of
             None \<Rightarrow> (Inl (PlainError ''Local path is undefined for local resource''), w)
           | Some localPath' \<Rightarrow>
               (let symlink = wants_symlink fetchedResource in
                if isDirectory fetchedResource then
                  if symlink then
                    (case symlinkOrCopy localPath' outputPath overwrite' True w of
                       (Inl e, w') \<Rightarrow> (Inl e, w')
                     | (Inr result, w') \<Rightarrow>
                         (Inr \<lparr>placed_created = bool_count (created result),
                               placed_updated = bool_count (updated result)\<rparr>, w'))
                  else
                    (case copyDirectory localPath' outputPath overwrite' w of
                       (Inl e, w') \<Rightarrow> (Inl e, w')
                     | (Inr result, w') \<Rightarrow>
                         (Inr \<lparr>placed_created = dir_created result, placed_updated = 0\<rparr>, w'))
                else if symlink then
                  (case symlinkOrCopy localPath' outputPath overwrite' False w of
                     (Inl e, w') \<Rightarrow> (Inl e, w')
                   | (Inr result, w') \<Rightarrow>
                       (Inr \<lparr>placed_created = bool_count (created result),
                             placed_updated = bool_count (updated result)\<rparr>, w'))
                else
                  (case copyFile localPath' outputPath overwrite' w of
                     (Inl e, w') \<Rightarrow> (Inl e, w')
                   | (Inr result, w') \<Rightarrow>
                       (Inr \<lparr>placed_created = bool_count (created result),
                             placed_updated = bool_count (updated result)\<rparr>, w')))))"

text \<open>The message templates of the engine.\<close>

definition dry_run_message :: "string \<Rightarrow> string" where
  "dry_run_message outputPath = ''[DRY RUN] Would process: '' @ outputPath"

definition created_message :: "string \<Rightarrow> string" where
  "created_message outputPath = check_mark @ '' Created: '' @ outputPath"

definition updated_message :: "string \<Rightarrow> string" where
  "updated_message outputPath = check_mark @ '' Updated: '' @ outputPath"

definition skipped_exists_message :: "string \<Rightarrow> string" where
  "skipped_exists_message outputPath =
     ''- Skipped: '' @ outputPath @ '' (already exists, overwrite: false)''"

definition skipped_identical_message :: "string \<Rightarrow> string" where
  "skipped_identical_message outputPath = ''- Skipped: '' @ outputPath @ '' (content identical)''"

definition failed_message :: "string \<Rightarrow> string \<Rightarrow> string" where
  "failed_message outputPath errorMessage =
     ''Failed to process output \"'' @ outputPath @ ''\": '' @ errorMessage"

definition error_message_line :: "string \<Rightarrow> string" where
  "error_message_line fullError = ballot_x @ '' '' @ fullError"

text \<open>
  The loop of \<^verbatim>\<open>processFetchedResource\<close> over the outputs; the four counters of the
  source are the accumulator \<open>acc\<close>. The body is the \<^verbatim>\<open>try\<close> block with its
  \<^verbatim>\<open>catch\<close>: an error of the placement ends up in the list of errors.
\<close>

fun processOutputs ::
  "'c FetchedResource \<Rightarrow> path \<Rightarrow> bool \<Rightarrow> string list \<Rightarrow> SyncResult \<Rightarrow> world \<Rightarrow> SyncResult \<times> world" where
  "processOutputs fetchedResource projectRoot dryRun [] acc w = (acc, w)"
| "processOutputs fetchedResource projectRoot dryRun (outputPath # rest) acc w =
     (let absoluteOutputPath = resolve_path projectRoot outputPath in
      if dryRun
      then processOutputs fetchedResource projectRoot dryRun rest acc
             (logger_emit Info (dry_run_message outputPath) w)
      else
        case placeResourceAtOutput fetchedResource absoluteOutputPath w of
          (Inr result, w1) \<Rightarrow>
            (let acc1 = acc\<lparr>sync_created := sync_created acc + placed_created result,
                            sync_updated := sync_updated acc + placed_updated result\<rparr>
             in if placed_created result > 0
                then processOutputs fetchedResource projectRoot dryRun rest acc1
                       (logger_emit Success (created_message outputPath) w1)
                else if placed_updated result > 0
                then processOutputs fetchedResource projectRoot dryRun rest acc1
                       (logger_emit Success (updated_message outputPath) w1)
                else if \<not> overwrite (definition_of fetchedResource)
                then processOutputs fetchedResource projectRoot dryRun rest
                       (acc1\<lparr>sync_skipped := sync_skipped acc1 + 1\<rparr>)
                       (logger_emit Skip (skipped_exists_message outputPath) w1)
                else processOutputs fetchedResource projectRoot dryRun rest
                       (acc1\<lparr>sync_skipped := sync_skipped acc1 + 1\<rparr>)
                       (logger_emit Skip (skipped_identical_message outputPath) w1))
        | (Inl error, w1) \<Rightarrow>
            (let errorMessage = formatError error;
                 fullError = failed_message outputPath errorMessage
             in processOutputs fetchedResource projectRoot dryRun rest
                  (acc\<lparr>sync_errors := sync_errors acc @ [fullError]\<rparr>)
                  (logger_emit Error (error_message_line fullError) w1)))"

definition no_result :: SyncResult where
  "no_result = \<lparr>sync_created = 0, sync_updated = 0, sync_skipped = 0, sync_errors = []\<rparr>"

definition processFetchedResource ::
  "'c FetchedResource \<Rightarrow> path \<Rightarrow> bool \<Rightarrow> world \<Rightarrow> SyncResult \<times> world" where
  "processFetchedResource fetchedResource projectRoot dryRun w =
     processOutputs fetchedResource projectRoot dryRun
       (outputs (definition_of fetchedResource)) no_result w"

text \<open>Decimal digits of a count, for the summary.\<close>

fun show_nat :: "nat \<Rightarrow> string" where
  "show_nat n =
     (if n < 10 then [char_of (48 + n)]
      else show_nat (n div 10) @ [char_of (48 + n mod 10)])"

declare show_nat.simps [simp del]

definition printSummary :: "SyncResult \<Rightarrow> bool \<Rightarrow> world \<Rightarrow> world" where
  "printSummary result dryRun w =
     (let total = sync_created result + sync_updated result + sync_skipped result;
          rule = replicate 50 CHR ''='';
          w1 = logger_emit Info (CHR 0x0A # rule) w;
          w2 = logger_emit Info (if dryRun then ''DRY RUN SUMMARY'' else ''SYNC SUMMARY'') w1;
          w3 = logger_emit Info rule w2;
          w4 = logger_emit Info (''Total outputs processed: '' @ show_nat total) w3;
          w5 = logger_emit Info (''Created: '' @ show_nat (sync_created result)) w4;
          w6 = logger_emit Info (''Updated: '' @ show_nat (sync_updated result)) w5;
          w7 = logger_emit Info (''Skipped: '' @ show_nat (sync_skipped result)) w6;
          w8 = (if length (sync_errors result) > 0
                then fold (\<lambda>error. logger_emit Info (''  '' @ bullet @ '' '' @ error))
                       (sync_errors result)
                       (logger_emit Info (CHR 0x0A # ''Errors encountered:'')
                          (logger_emit Info
                             (''Errors: '' @ show_nat (length (sync_errors result))) w7))
                else w7);
          w9 = logger_emit Info rule w8
      in if length (sync_errors result) = 0
         then (if dryRun
               then logger_emit Success (check_mark @ '' Dry run completed successfully'') w9
               else logger_emit Success (check_mark @ '' Sync completed successfully'') w9)
         else logger_emit Warn (warning_sign @ '' Sync completed with errors'') w9)"

text \<open>The loop of \<^verbatim>\<open>runSync\<close> over the fetched resources, adding up the four counters.\<close>

fun processAll ::
  "'c FetchedResource list \<Rightarrow> path \<Rightarrow> bool \<Rightarrow> SyncResult \<Rightarrow> world \<Rightarrow> SyncResult \<times> world" where
  "processAll [] projectRoot dryRun acc w = (acc, w)"
| "processAll (fetchedResource # rest) projectRoot dryRun acc w =
     (case processFetchedResource fetchedResource projectRoot dryRun w of
        (result, w') \<Rightarrow>
          processAll rest projectRoot dryRun
            \<lparr>sync_created = sync_created acc + sync_created result,
             sync_updated = sync_updated acc + sync_updated result,
             sync_skipped = sync_skipped acc + sync_skipped result,
             sync_errors = sync_errors acc @ sync_errors result\<rparr> w')"

text \<open>
  \<^verbatim>\<open>runSync\<close>. Loading and validating the configuration is a parameter: it yields the
  validated resources together with the registry as it stands after the dynamic
  plugins were loaded, or it throws. The logger is the one of the world.
\<close>

definition runSync ::
  "(world \<Rightarrow> ('c ValidatedResource list \<times> 'c registry) result) \<Rightarrow> bool \<Rightarrow> world
     \<Rightarrow> SyncResult \<times> world" where
  "runSync loadConfig dryRun w =
     (let projectRoot = cwd w;
          failed = (\<lambda>error w'.
            (let errorMessage = formatError error
             in (no_result\<lparr>sync_errors := [errorMessage]\<rparr>,
                 logger_emit Error (''Error: '' @ errorMessage) w')))
      in case loadConfig w of
           (Inl error, w1) \<Rightarrow> failed error w1
         | (Inr (resources, plugins), w1) \<Rightarrow>
             (case fetchResources plugins resources projectRoot w1 of
                (Inl error, w2) \<Rightarrow> failed error w2
              | (Inr fetchedResources, w2) \<Rightarrow>
                  (case processAll fetchedResources projectRoot dryRun no_result w2 of
                     (result, w3) \<Rightarrow> (result, printSummary result dryRun w3))))"

section \<open>Notions used in the proofs\<close>

text \<open>Every path from the root down to \<open>cur\<close> names a directory.\<close>

definition dirs_above :: "fstab \<Rightarrow> path \<Rightarrow> bool" where
  "dirs_above fs cur = (\<forall>k \<le> length cur. node_at fs (take k cur) = Some Dir)"

text \<open>The real path \<open>k\<close> is free or holds a regular file, so that a file can be written there.\<close>

definition writable_at :: "fstab \<Rightarrow> path \<Rightarrow> bool" where
  "writable_at fs k = (k \<noteq> [] \<and> (case node_at fs k of None \<Rightarrow> True | Some (File _) \<Rightarrow> True | _ \<Rightarrow> False))"

text \<open>A small project tree, for the concrete instances of the theorems.\<close>

definition project_files :: fstab where
  "project_files =
     [([''proj'', ''a.md''], File ''X''),
      ([''proj'', ''same.md''], File ''X''),
      ([''proj'', ''out.md''], File ''Y''),
      ([''proj'', ''docs'', ''guide.md''], File ''G''),
      ([''proj'', ''docs''], Dir),
      ([''proj'', ''site''], Dir),
      ([''proj''], Dir)]"

definition project_world :: world where
  "project_world =
     \<lparr>files = project_files, cwd = [''proj''], platform = Linux, symlinkPermitted = True,
      console = [], logged = []\<rparr>"

text \<open>The second world differs from the first in its files at most.\<close>

definition only_files_changed :: "world \<Rightarrow> world \<Rightarrow> bool" where
  "only_files_changed w w' = (w' = w\<lparr>files := files w'\<rparr>)"


text \<open>
  Fetched resources as the built-in plugins deliver them: a file and a directory of the
  local plugin (without the symlink hint) and a text of the http plugin.
\<close>

definition local_file :: "path \<Rightarrow> bool \<Rightarrow> string list \<Rightarrow> unit FetchedResource" where
  "local_file p ov outs =
     \<lparr>definition_of = \<lparr>plugin = ''local'', pluginConfig = (), overwrite = ov, outputs = outs\<rparr>,
      localPath = Some p, isDirectory = False, content = None,
      pluginMetadata = Some [(''symlink'', MetaBool False)]\<rparr>"


definition remote_text :: "string \<Rightarrow> bool \<Rightarrow> string list \<Rightarrow> unit FetchedResource" where
  "remote_text text ov outs =
     \<lparr>definition_of = \<lparr>plugin = ''http'', pluginConfig = (), overwrite = ov, outputs = outs\<rparr>,
      localPath = None, isDirectory = False, content = Some text,
      pluginMetadata = None\<rparr>"

text \<open>
  The invariant of the data model, for a fetched resource and for the result of a plugin:
  exactly one of content and local path is set, and a content is no directory.
\<close>

definition resource_invariant :: "'c FetchedResource \<Rightarrow> bool" where
  "resource_invariant fr =
     (((content fr = None) \<noteq> (localPath fr = None))
      \<and> (content fr \<noteq> None \<longrightarrow> \<not> isDirectory fr))"

definition result_invariant :: "PluginResult \<Rightarrow> bool" where
  "result_invariant r =
     (((PluginResult.content r = None) \<noteq> (PluginResult.localPath r = None))
      \<and> (PluginResult.content r \<noteq> None \<longrightarrow> PluginResult.isDirectory r \<noteq> Some True))"

text \<open>
  Plugins for the concrete instances. Each leaves a line on the console when it is
  asked to fetch, so that the world tells which plugins ran.
\<close>

definition traced :: "string \<Rightarrow> world \<Rightarrow> world" where
  "traced n w = w\<lparr>console := console w @ [''fetch '' @ n]\<rparr>"

definition text_plugin :: "unit Plugin" where
  "text_plugin =
     \<lparr>name = ''text'',
      fetch = (\<lambda>config projectRoot w.
        (Inr \<lparr>PluginResult.content = Some ''T'', PluginResult.localPath = None,
              PluginResult.isDirectory = Some False, metadata = None\<rparr>,
         traced ''text'' w))\<rparr>"

definition failing_plugin :: "unit Plugin" where
  "failing_plugin =
     \<lparr>name = ''failing'',
      fetch = (\<lambda>config projectRoot w. (Inl (PluginError ''no route'' ''failing''), traced ''failing'' w))\<rparr>"

definition refusing_plugin :: "unit Plugin" where
  "refusing_plugin =
     \<lparr>name = ''refusing'',
      fetch = (\<lambda>config projectRoot w.
        (Inl (ResourceError ''HTTP 404 Not Found'' (Some ''https://example.org/x'')),
         traced ''refusing'' w))\<rparr>"

definition careless_plugin :: "unit Plugin" where
  "careless_plugin =
     \<lparr>name = ''careless'',
      fetch = (\<lambda>config projectRoot w.
        (Inr \<lparr>PluginResult.content = Some ''T'',
              PluginResult.localPath = Some [''proj'', ''a.md''],
              PluginResult.isDirectory = Some True, metadata = None\<rparr>,
         traced ''careless'' w))\<rparr>"

definition some_plugins :: "unit registry" where
  "some_plugins =
     register (register (register (register Map.empty text_plugin) failing_plugin)
                 refusing_plugin) careless_plugin"

definition resource_of :: "string \<Rightarrow> string list \<Rightarrow> unit ValidatedResource" where
  "resource_of pluginName outs =
     \<lparr>plugin = pluginName, pluginConfig = (), overwrite = True, outputs = outs\<rparr>"

text \<open>
  The fetched resource \<open>fr\<close> is what the orchestrator makes of a result that the plugin
  named in its definition returned: content, local path and metadata as they are, and the
  directory flag with false for a missing one.
\<close>

definition mirrors :: "'c registry \<Rightarrow> path \<Rightarrow> 'c FetchedResource \<Rightarrow> bool" where
  "mirrors plugins root fr =
     (\<exists>p result w0 w1.
        plugins (plugin (definition_of fr)) = Some p
        \<and> fetch p (pluginConfig (definition_of fr)) root w0 = (Inr result, w1)
        \<and> content fr = PluginResult.content result
        \<and> localPath fr = PluginResult.localPath result
        \<and> isDirectory fr = (PluginResult.isDirectory result = Some True)
        \<and> pluginMetadata fr = metadata result
        \<and> resource_invariant fr = result_invariant result)"

text \<open>The errors that leave \<^verbatim>\<open>fetchSingleResource\<close> and what the loop makes of them.\<close>

definition escapes :: "'c registry \<Rightarrow> 'c ValidatedResource \<Rightarrow> path \<Rightarrow> js_error \<Rightarrow> bool" where
  "escapes plugins r root e =
     ((plugins (plugin r) = None
       \<and> e = ResourceError (''Failed to fetch resource: Plugin not found: '' @ plugin r) None)
    \<or> (\<exists>p error w0 w1.
          plugins (plugin r) = Some p
          \<and> fetch p (pluginConfig r) root w0 = (Inl error, w1)
          \<and> (if is_ResourceError error then e = error
              else e = ResourceError (''Failed to fetch with plugin \"'' @ plugin r @ ''\": '' @
                                      error_message error) (Some (plugin r)))))"











section \<open>Path resolution\<close>

lemma dirs_above_Nil: "dirs_above fs []"
  by (simp add: dirs_above_def node_at_def)

lemma dirs_above_self: "dirs_above fs cur \<Longrightarrow> node_at fs cur = Some Dir"
  unfolding dirs_above_def by (metis order_refl take_all)

lemma dirs_above_snoc:
  "dirs_above fs cur \<Longrightarrow> node_at fs (cur @ [c]) = Some Dir \<Longrightarrow> dirs_above fs (cur @ [c])"
  unfolding dirs_above_def
  by (auto simp: le_Suc_eq)

lemma dirs_above_take: "dirs_above fs cur \<Longrightarrow> dirs_above fs (take m cur)"
  unfolding dirs_above_def
  by (auto simp: min_def)

lemma walk_from_snoc_Missing:
  "walk_from h fs cur cs = Missing q r \<Longrightarrow> walk_from h fs cur (cs @ [c]) = Missing q (r @ [c])"
proof (induction h fs cur cs rule: walk_from.induct)
  case (1 h fs cur)
  then show ?case by (simp split: option.splits)
next
  case (2 h fs cur c' cs)
  then show ?case
    by (auto split: option.splits node.splits nat.splits if_splits)
qed

lemma walk_from_snoc_Failed:
  "dirs_above fs cur \<Longrightarrow> walk_from h fs cur cs = Failed e \<Longrightarrow> walk_from h fs cur (cs @ [c]) = Failed e"
proof (induction h fs cur cs rule: walk_from.induct)
  case (1 h fs cur)
  then show ?case by (simp add: dirs_above_self split: option.splits)
next
  case (2 h fs cur c' cs)
  then show ?case
    by (auto split: option.splits node.splits nat.splits if_splits
             simp: dirs_above_snoc dirs_above_take)
qed

lemma walk_from_snoc_Found:
  "dirs_above fs cur \<Longrightarrow> walk_from h fs cur cs = Found rq n \<Longrightarrow>
     (n = Dir \<and> dirs_above fs rq \<and> (\<exists>h' \<le> h. walk_from h fs cur (cs @ [c]) = walk_from h' fs rq [c]))
   \<or> ((\<exists>b. n = File b) \<and> walk_from h fs cur (cs @ [c]) = Failed ENOTDIR)"
proof (induction h fs cur cs rule: walk_from.induct)
  case (1 h fs cur)
  then show ?case by (auto simp add: dirs_above_self split: option.splits)
next
  case (2 h fs cur c' cs)
  show ?case
  proof (cases "node_at fs (cur @ [c'])")
    case None
    with 2 show ?thesis by simp
  next
    case (Some x)
    show ?thesis
    proof (cases x)
      case (File b)
      with Some 2 show ?thesis by (auto split: if_splits)
    next
      case Dir
      with Some 2 show ?thesis by (simp add: dirs_above_snoc)
    next
      case (Symlink ups downs)
      show ?thesis
      proof (cases h)
        case 0
        with Symlink Some 2 show ?thesis by simp
      next
        case (Suc h0)
        with Symlink Some 2(2)[of x ups downs h0] 2(3,4)
        show ?thesis
          using dirs_above_take[of fs cur "length cur - ups"]
          by (auto intro: le_SucI)
      qed
    qed
  qed
qed


lemma node_at_Cons: "k \<noteq> [] \<Longrightarrow> node_at ((k, v) # fs) x = (if x = k then Some v else node_at fs x)"
  by (simp add: node_at_def)

lemma walk_from_write_Found:
  "writable_at fs k \<Longrightarrow> walk_from h fs cur p = Found rp n \<Longrightarrow>
     walk_from h ((k, File b) # fs) cur p = Found rp (if rp = k then File b else n)"
proof (induction h fs cur p rule: walk_from.induct)
  case (1 h fs cur)
  then show ?case
    by (cases "node_at fs cur"; cases "the (node_at fs cur)")
       (auto simp: node_at_Cons writable_at_def split: option.splits)
next
  case (2 h fs cur c cs)
  then show ?case
    by (cases "node_at fs (cur @ [c])"; cases "the (node_at fs (cur @ [c]))")
       (auto simp: node_at_Cons writable_at_def split: nat.splits if_splits)
qed

lemma walk_from_write_Missing:
  "writable_at fs k \<Longrightarrow> walk_from h fs cur p = Missing q r \<Longrightarrow>
     walk_from h ((k, File b) # fs) cur p =
       (if q = k then (if r = [] then Found k (File b) else Failed ENOTDIR) else Missing q r)"
proof (induction h fs cur p rule: walk_from.induct)
  case (1 h fs cur)
  then show ?case
    by (auto split: option.splits)
next
  case (2 h fs cur c cs)
  then show ?case
    by (cases "node_at fs (cur @ [c])"; cases "the (node_at fs (cur @ [c]))")
       (auto simp: node_at_Cons writable_at_def split: nat.splits if_splits)
qed


lemma node_at_mkdirs:
  "q \<noteq> [] \<Longrightarrow> node_at (mkdirs q rest fs) x =
     (if \<exists>i \<le> length rest. x = q @ take i rest then Some Dir else node_at fs x)"
proof (induction rest arbitrary: q fs)
  case Nil
  then show ?case by (simp add: node_at_Cons)
next
  case (Cons c cs)
  have eq: "(\<exists>i \<le> length (c # cs). x = q @ take i (c # cs))
            \<longleftrightarrow> x = q \<or> (\<exists>i \<le> length cs. x = q @ c # take i cs)"
  proof
    assume "\<exists>i \<le> length (c # cs). x = q @ take i (c # cs)"
    then obtain i where i: "i \<le> length (c # cs)" "x = q @ take i (c # cs)" by blast
    show "x = q \<or> (\<exists>i \<le> length cs. x = q @ c # take i cs)"
    proof (cases i)
      case 0
      with i show ?thesis by simp
    next
      case (Suc j)
      with i show ?thesis by auto
    qed
  next
    assume "x = q \<or> (\<exists>i \<le> length cs. x = q @ c # take i cs)"
    then show "\<exists>i \<le> length (c # cs). x = q @ take i (c # cs)"
    proof
      assume "x = q"
      then have "x = q @ take 0 (c # cs)" by simp
      then show ?thesis by blast
    next
      assume "\<exists>i \<le> length cs. x = q @ c # take i cs"
      then obtain i where "i \<le> length cs" "x = q @ c # take i cs" by blast
      then have "Suc i \<le> length (c # cs)" "x = q @ take (Suc i) (c # cs)" by simp_all
      then show ?thesis by blast
    qed
  qed
  have "node_at (mkdirs q (c # cs) fs) x = node_at (mkdirs (q @ [c]) cs ((q, Dir) # fs)) x"
    by simp
  also have "\<dots> = (if \<exists>i \<le> length cs. x = q @ c # take i cs then Some Dir
                     else node_at ((q, Dir) # fs) x)"
    using Cons.IH[of "q @ [c]" "(q, Dir) # fs"] by simp
  also have "\<dots> = (if x = q \<or> (\<exists>i \<le> length cs. x = q @ c # take i cs) then Some Dir
                     else node_at fs x)"
    using Cons.prems by (auto simp: node_at_Cons)
  finally show ?case unfolding eq .
qed

lemma walk_from_all_dirs:
  "(\<forall>j \<le> length r. node_at fs (c @ take j r) = Some Dir) \<Longrightarrow> walk_from h fs c r = Found (c @ r) Dir"
proof (induction r arbitrary: c)
  case Nil
  then show ?case by simp
next
  case (Cons x xs)
  have 1: "node_at fs (c @ [x]) = Some Dir"
    using Cons.prems[rule_format, of 1] by simp
  have 2: "\<forall>j \<le> length xs. node_at fs ((c @ [x]) @ take j xs) = Some Dir"
  proof (intro allI impI)
    fix j assume "j \<le> length xs"
    then show "node_at fs ((c @ [x]) @ take j xs) = Some Dir"
      using Cons.prems[rule_format, of "Suc j"] by simp
  qed
  show ?case using 1 Cons.IH[OF 2] by simp
qed

text \<open>A key that lies at or below the missing entry is not the child of a directory chain.\<close>

lemma not_new_key:
  assumes "dirs_above fs cur" "node_at fs q = None" "node_at fs (cur @ [c]) \<noteq> None"
  shows "\<not> (\<exists>i \<le> length rest. cur @ [c] = q @ take i rest)"
proof
  assume "\<exists>i \<le> length rest. cur @ [c] = q @ take i rest"
  then obtain i where i: "cur @ [c] = q @ take i rest" by blast
  show False
  proof (cases "take i rest = []")
    case True
    with i assms show False by simp
  next
    case False
    then have "length q \<le> length cur"
      using arg_cong[OF i, of length] by (cases "take i rest") auto
    moreover have "take (length q) (cur @ [c]) = q" using i by simp
    ultimately have "take (length q) cur = q" by simp
    with assms(1) \<open>length q \<le> length cur\<close> have "node_at fs q = Some Dir"
      unfolding dirs_above_def by metis
    with assms(2) show False by simp
  qed
qed

lemma not_new_key_self:
  assumes "dirs_above fs cur" "node_at fs q = None"
  shows "\<not> (\<exists>i \<le> length rest. cur = q @ take i rest)"
proof
  assume "\<exists>i \<le> length rest. cur = q @ take i rest"
  then obtain i where i: "cur = q @ take i rest" by blast
  then have "take (length q) cur = q" "length q \<le> length cur" by simp_all
  with assms(1) have "node_at fs q = Some Dir"
    unfolding dirs_above_def by metis
  with assms(2) show False by simp
qed

lemma walk_from_mkdirs_Found:
  "dirs_above fs cur \<Longrightarrow> node_at fs q = None \<Longrightarrow> walk_from h fs cur p = Found rp n \<Longrightarrow>
     walk_from h (mkdirs q rest fs) cur p = Found rp n"
proof (induction h fs cur p rule: walk_from.induct)
  case (1 h fs cur)
  have "q \<noteq> []" using 1(2) by (auto simp: node_at_def)
  then show ?case
    using 1 not_new_key_self[OF 1(1,2), of rest]
    by (auto simp: node_at_mkdirs split: option.splits)
next
  case (2 h fs cur c cs)
  have q: "q \<noteq> []" using 2(4) by (auto simp: node_at_def)
  show ?case
  proof (cases "node_at fs (cur @ [c])")
    case None
    with 2 show ?thesis by simp
  next
    case (Some x)
    then have same: "node_at (mkdirs q rest fs) (cur @ [c]) = Some x"
      using not_new_key[OF 2(3,4), of c rest] q by (auto simp: node_at_mkdirs)
    show ?thesis
    proof (cases x)
      case (File b)
      with Some same 2 show ?thesis by (auto split: if_splits)
    next
      case Dir
      with Some same 2 show ?thesis by (simp add: dirs_above_snoc)
    next
      case (Symlink ups downs)
      show ?thesis
      proof (cases h)
        case 0
        with Symlink Some 2 show ?thesis by simp
      next
        case (Suc h0)
        with Symlink Some same 2(2)[of x ups downs h0] 2(3,4,5)
        show ?thesis
          using dirs_above_take[of fs cur "length cur - ups"] by simp
      qed
    qed
  qed
qed

lemma walk_from_Missing_None:
  "walk_from h fs cur p = Missing q r \<Longrightarrow> node_at fs q = None"
proof (induction h fs cur p rule: walk_from.induct)
  case (1 h fs cur)
  then show ?case by (simp split: option.splits)
next
  case (2 h fs cur c cs)
  show ?case
  proof (cases "node_at fs (cur @ [c])")
    case None
    with 2 show ?thesis by simp
  next
    case (Some x)
    show ?thesis
    proof (cases x)
      case (File b)
      with Some 2 show ?thesis by (simp split: if_splits)
    next
      case Dir
      with Some 2 show ?thesis by simp
    next
      case (Symlink ups downs)
      show ?thesis
      proof (cases h)
        case 0
        with Symlink Some 2 show ?thesis by simp
      next
        case (Suc h0)
        with Symlink Some 2(2)[of x ups downs h0] 2(3)
        show ?thesis by simp
      qed
    qed
  qed
qed

lemma walk_from_mkdirs_Missing:
  "dirs_above fs cur \<Longrightarrow> walk_from h fs cur p = Missing q rest \<Longrightarrow>
     walk_from h (mkdirs q rest fs) cur p = Found (q @ rest) Dir"
proof (induction h fs cur p arbitrary: rule: walk_from.induct)
  case (1 h fs cur)
  then show ?case by (simp split: option.splits)
next
  case (2 h fs cur c cs)
  show ?case
  proof (cases "node_at fs (cur @ [c])")
    case None
    with 2 have eq: "q = cur @ [c]" "rest = cs" by simp_all
    have "\<forall>j \<le> length rest. node_at (mkdirs q rest fs) (q @ take j rest) = Some Dir"
      using eq by (auto simp: node_at_mkdirs)
    from walk_from_all_dirs[OF this, of h]
    have a: "walk_from h (mkdirs q rest fs) q rest = Found (q @ rest) Dir" .
    have "node_at (mkdirs q rest fs) (cur @ [c]) = Some Dir"
      using eq by (auto simp: node_at_mkdirs intro: exI[of _ 0])
    then show ?thesis using a eq by simp
  next
    case (Some x)
    have qn: "node_at fs q = None" using 2(4) by (rule walk_from_Missing_None)
    have q: "q \<noteq> []" using qn by (auto simp: node_at_def)
    have same: "node_at (mkdirs q rest fs) (cur @ [c]) = Some x"
      using Some not_new_key[OF 2(3) qn, of c rest] q by (auto simp: node_at_mkdirs)
    show ?thesis
    proof (cases x)
      case (File b)
      with Some same 2 show ?thesis by (auto split: if_splits)
    next
      case Dir
      with Some same 2 show ?thesis by (simp add: dirs_above_snoc)
    next
      case (Symlink ups downs)
      show ?thesis
      proof (cases h)
        case 0
        with Symlink Some 2 show ?thesis by simp
      next
        case (Suc h0)
        with Symlink Some same 2(2)[of x ups downs h0] 2(3,4)
        show ?thesis
          using dirs_above_take[of fs cur "length cur - ups"] by simp
      qed
    qed
  qed
qed

section \<open>The system calls\<close>

lemma walk_from_Found_node:
  "walk_from h fs cur p = Found rp n \<Longrightarrow> node_at fs rp = Some n"
proof (induction h fs cur p rule: walk_from.induct)
  case (1 h fs cur)
  then show ?case by (simp split: option.splits)
next
  case (2 h fs cur c cs)
  show ?case
  proof (cases "node_at fs (cur @ [c])")
    case None
    with 2 show ?thesis by simp
  next
    case (Some x)
    show ?thesis
    proof (cases x)
      case (File b)
      with Some 2 show ?thesis by (auto split: if_splits)
    next
      case Dir
      with Some 2 show ?thesis by simp
    next
      case (Symlink ups downs)
      show ?thesis
      proof (cases h)
        case 0
        with Symlink Some 2 show ?thesis by simp
      next
        case (Suc h0)
        with Symlink Some 2(2)[of x ups downs h0] 2(3)
        show ?thesis by simp
      qed
    qed
  qed
qed

lemma path_bytes_butlast: "path_bytes (butlast p) \<le> path_bytes p"
proof (cases "p = []")
  case True
  then show ?thesis by (simp add: path_bytes_def)
next
  case False
  then have "p = butlast p @ [last p]" by simp
  then have "path_bytes p = path_bytes (butlast p) + Suc (length (last p))"
    unfolding path_bytes_def by (metis (no_types, lifting) list.simps(8,9) map_append sum_list.Cons sum_list.Nil sum_list_append add.right_neutral)
  then show ?thesis by simp
qed

text \<open>A path that resolves has a parent that resolves to a directory holding its last component.\<close>

lemma walk_parent:
  assumes "walk fs p = Found rp n" "p \<noteq> []"
  shows "\<exists>rq. walk fs (butlast p) = Found rq Dir \<and> node_at fs (rq @ [last p]) \<noteq> None"
proof -
  have len: "\<not> PATH_MAX < path_bytes p" using assms(1) by (auto simp: walk_def split: if_splits)
  then have len': "\<not> PATH_MAX < path_bytes (butlast p)"
    using path_bytes_butlast[of p] by simp
  have p: "p = butlast p @ [last p]" using assms(2) by simp
  have full: "walk_from MAXSYMLINKS fs [] (butlast p @ [last p]) = Found rp n"
    using assms(1) len p by (simp add: walk_def)
  show ?thesis
  proof (cases "walk_from MAXSYMLINKS fs [] (butlast p)")
    case (Found rq n')
    from walk_from_snoc_Found[OF dirs_above_Nil Found, of "last p"] full
    obtain h' where h: "n' = Dir" "walk_from h' fs rq [last p] = Found rp n"
      by auto
    then have "node_at fs (rq @ [last p]) \<noteq> None"
      by (auto split: option.splits)
    with Found h len' show ?thesis by (simp add: walk_def)
  next
    case (Missing q r)
    from walk_from_snoc_Missing[OF this, of "last p"] full show ?thesis by simp
  next
    case (Failed e)
    from walk_from_snoc_Failed[OF dirs_above_Nil this, of "last p"] full show ?thesis by simp
  qed
qed

lemma lwalk_of_walk:
  assumes "walk fs p = Found rp n"
  shows "\<exists>rq m. lwalk fs p = Found rq m"
proof (cases "p = []")
  case True
  with assms show ?thesis by (auto simp: lwalk_def walk_def split: if_splits)
next
  case False
  have len: "\<not> PATH_MAX < path_bytes p" using assms by (auto simp: walk_def split: if_splits)
  from walk_parent[OF assms False] obtain rq where
    "walk fs (butlast p) = Found rq Dir" "node_at fs (rq @ [last p]) \<noteq> None" by blast
  with False len show ?thesis by (auto simp: lwalk_def)
qed

lemma fs_symlink_exists:
  "fs_stat fs p = Inr n \<Longrightarrow> \<exists>e. fs_symlink permitted fs target p ty = Inl e"
proof -
  assume "fs_stat fs p = Inr n"
  then obtain rp where "walk fs p = Found rp n"
    by (auto simp: fs_stat_def split: outcome.splits)
  from lwalk_of_walk[OF this] obtain rq m where "lwalk fs p = Found rq m" by blast
  then show ?thesis by (simp add: fs_symlink_def)
qed

lemma fs_mkdir_p_parent_of_existing:
  assumes "fs_stat fs p = Inr n"
  shows "fs_mkdir_p fs (dirname p) = Inr fs"
proof -
  from assms obtain rp where w: "walk fs p = Found rp n"
    by (auto simp: fs_stat_def split: outcome.splits)
  show ?thesis
  proof (cases "p = []")
    case True
    with w show ?thesis
      by (auto simp: fs_mkdir_p_def dirname_def walk_def node_at_def split: if_splits)
  next
    case False
    from walk_parent[OF w False] show ?thesis
      by (auto simp: fs_mkdir_p_def dirname_def)
  qed
qed

lemma writable_at_Found_File:
  "walk_from h fs cur p = Found rp (File x) \<Longrightarrow> writable_at fs rp"
  using walk_from_Found_node[of h fs cur p rp "File x"]
  by (auto simp: writable_at_def node_at_def split: if_splits)

lemma writable_at_Missing:
  "walk_from h fs cur p = Missing q r \<Longrightarrow> writable_at fs q"
  using walk_from_Missing_None[of h fs cur p q r]
  by (auto simp: writable_at_def node_at_def split: if_splits)

text \<open>What a successful write leaves behind.\<close>

lemma fs_writeFile_result:
  assumes "fs_writeFile fs p b = Inr fs'"
  shows "\<exists>k. writable_at fs k \<and> fs' = (k, File b) # fs \<and> walk fs' p = Found k (File b)"
proof -
  have len: "\<not> PATH_MAX < path_bytes p"
    using assms by (auto simp: fs_writeFile_def walk_def split: if_splits)
  show ?thesis
  proof (cases "walk_from MAXSYMLINKS fs [] p")
    case (Found rp n)
    with assms len obtain x where x: "n = File x" "fs' = (rp, File b) # fs"
      by (auto simp: fs_writeFile_def walk_def split: node.splits)
    from Found x have wr: "writable_at fs rp" using writable_at_Found_File by blast
    from walk_from_write_Found[OF wr Found, of b] x len wr show ?thesis
      by (auto simp: walk_def)
  next
    case (Missing q r)
    with assms len have x: "r = []" "fs' = (q, File b) # fs"
      by (auto simp: fs_writeFile_def walk_def split: list.splits)
    from Missing have wr: "writable_at fs q" using writable_at_Missing by blast
    from walk_from_write_Missing[OF wr Missing, of b] x len wr show ?thesis
      by (auto simp: walk_def)
  next
    case (Failed e)
    with assms len show ?thesis by (auto simp: fs_writeFile_def walk_def)
  qed
qed

lemma fs_writeFile_read_back:
  "fs_writeFile fs p b = Inr fs' \<Longrightarrow> fs_readFile fs' p = Inr b"
  using fs_writeFile_result[of fs p b fs'] by (auto simp: fs_readFile_def)

lemma fs_writeFile_stat:
  "fs_writeFile fs p b = Inr fs' \<Longrightarrow> fs_stat fs' p = Inr (File b)"
  using fs_writeFile_result[of fs p b fs'] by (auto simp: fs_stat_def)

lemma walk_after_write:
  assumes "writable_at fs k" "walk fs s = Found rp n"
  shows "walk ((k, File b) # fs) s = Found rp (if rp = k then File b else n)"
  using assms walk_from_write_Found[OF assms(1), of MAXSYMLINKS "[]" s rp n b]
  by (auto simp: walk_def split: if_splits)

lemma fs_copyFile_read_both:
  assumes "fs_copyFile fs src dest = Inr fs'"
  shows "\<exists>a. fs_readFile fs src = Inr a \<and> fs_readFile fs' src = Inr a \<and> fs_readFile fs' dest = Inr a"
proof -
  from assms obtain a where a: "fs_readFile fs src = Inr a" "fs_writeFile fs dest a = Inr fs'"
    by (auto simp: fs_copyFile_def split: sum.splits)
  from fs_writeFile_result[OF a(2)] obtain k where
    k: "writable_at fs k" "fs' = (k, File a) # fs" "walk fs' dest = Found k (File a)" by blast
  from a(1) obtain rs where rs: "walk fs src = Found rs (File a)"
    by (auto simp: fs_readFile_def split: outcome.splits node.splits)
  from walk_after_write[OF k(1) rs, of a] k(2)
  have "fs_readFile fs' src = Inr a" by (auto simp: fs_readFile_def)
  with a k show ?thesis by (auto simp: fs_readFile_def)
qed

lemma walk_after_mkdir:
  assumes "fs_mkdir_p fs p = Inr fs'" "walk fs s = Found rp n"
  shows "walk fs' s = Found rp n"
proof (cases "walk fs p")
  case (Found rq m)
  with assms show ?thesis by (auto simp: fs_mkdir_p_def split: node.splits)
next
  case (Missing q r)
  then have mw: "walk_from MAXSYMLINKS fs [] p = Missing q r"
    by (auto simp: walk_def split: if_splits)
  from Missing assms have fs': "fs' = mkdirs q r fs" by (simp add: fs_mkdir_p_def)
  have qn: "node_at fs q = None" using mw by (rule walk_from_Missing_None)
  from assms(2) have s: "walk_from MAXSYMLINKS fs [] s = Found rp n" "\<not> PATH_MAX < path_bytes s"
    by (auto simp: walk_def split: if_splits)
  from walk_from_mkdirs_Found[OF dirs_above_Nil qn s(1), of r] s(2) fs'
  show ?thesis by (simp add: walk_def)
next
  case (Failed e)
  with assms show ?thesis by (simp add: fs_mkdir_p_def)
qed

lemma walk_mkdir_itself:
  assumes "fs_mkdir_p fs p = Inr fs'"
  shows "\<exists>rq. walk fs' p = Found rq Dir"
proof (cases "walk fs p")
  case (Found rq m)
  with assms show ?thesis by (auto simp: fs_mkdir_p_def split: node.splits)
next
  case (Missing q r)
  then have mw: "walk_from MAXSYMLINKS fs [] p = Missing q r" "\<not> PATH_MAX < path_bytes p"
    by (auto simp: walk_def split: if_splits)
  from Missing assms have fs': "fs' = mkdirs q r fs" by (simp add: fs_mkdir_p_def)
  from walk_from_mkdirs_Missing[OF dirs_above_Nil mw(1)] mw(2) fs'
  show ?thesis by (simp add: walk_def)
next
  case (Failed e)
  with assms show ?thesis by (simp add: fs_mkdir_p_def)
qed

section \<open>copyFile\<close>

lemma pathExists_stat: "pathExists w p \<longleftrightarrow> (\<exists>n. fs_stat (files w) p = Inr n)"
  by (auto simp: pathExists_def split: sum.splits)

lemma ensureDirectoryExists_existing:
  "pathExists w p \<Longrightarrow> ensureDirectoryExists (dirname p) w = (Inr (), w)"
  by (auto simp: pathExists_stat ensureDirectoryExists_def fs_mkdir_p_parent_of_existing)

lemma ensureDirectoryExists_cases:
  "ensureDirectoryExists d w = (r, w') \<Longrightarrow>
     (\<exists>fs'. fs_mkdir_p (files w) d = Inr fs' \<and> r = Inr () \<and> w' = w\<lparr>files := fs'\<rparr>)
   \<or> (fs_mkdir_p (files w) d = Inl EEXIST \<and> r = Inr () \<and> w' = w)
   \<or> (\<exists>e. fs_mkdir_p (files w) d = Inl e \<and> e \<noteq> EEXIST \<and> w' = w \<and>
           r = Inl (mkdir_failed d))"
  by (auto simp: ensureDirectoryExists_def split: sum.splits if_splits)

lemma fs_writeFile_fails_when_mkdir_fails:
  assumes "fs_mkdir_p fs (dirname p) = Inl e"
  shows "\<exists>e'. fs_writeFile fs p b = Inl e'"
proof (cases "p = []")
  case True
  with assms show ?thesis
    by (auto simp: fs_mkdir_p_def dirname_def walk_def node_at_def path_bytes_def split: if_splits)
next
  case False
  then have p: "p = butlast p @ [last p]" by simp
  have fails: "\<exists>e'. walk fs p = Failed e'"
  proof (cases "PATH_MAX < path_bytes p")
    case True
    then show ?thesis by (simp add: walk_def)
  next
    case len: False
    then have len': "\<not> PATH_MAX < path_bytes (butlast p)"
      using path_bytes_butlast[of p] by simp
    show ?thesis
    proof (cases "walk_from MAXSYMLINKS fs [] (butlast p)")
      case (Found rq n)
      from walk_from_snoc_Found[OF dirs_above_Nil Found, of "last p"] p
      have "n = Dir \<or> walk_from MAXSYMLINKS fs [] p = Failed ENOTDIR" by auto
      moreover have "n \<noteq> Dir"
        using assms Found len' by (auto simp: fs_mkdir_p_def dirname_def walk_def)
      ultimately show ?thesis using len by (simp add: walk_def)
    next
      case (Missing q r)
      with assms len' show ?thesis by (simp add: fs_mkdir_p_def dirname_def walk_def)
    next
      case (Failed e0)
      from walk_from_snoc_Failed[OF dirs_above_Nil Failed, of "last p"] p len
      show ?thesis by (simp add: walk_def)
    qed
  qed
  then show ?thesis by (auto simp: fs_writeFile_def)
qed

lemma fs_copyFile_fails_when_mkdir_fails:
  "fs_mkdir_p fs (dirname p) = Inl e \<Longrightarrow> \<exists>e'. fs_copyFile fs src p = Inl e'"
  using fs_writeFile_fails_when_mkdir_fails[of fs p e]
  by (auto simp: fs_copyFile_def split: sum.splits)

text \<open>After a file was put at \<open>dest\<close>, the directory of \<open>dest\<close> is a directory.\<close>

lemma parent_after_write:
  assumes "fs_mkdir_p fs (dirname p) = Inr fs1" "fs_writeFile fs1 p b = Inr fs2"
  shows "fs_stat fs2 (dirname p) = Inr Dir"
proof -
  from walk_mkdir_itself[OF assms(1)] obtain rq where rq: "walk fs1 (dirname p) = Found rq Dir" by blast
  from fs_writeFile_result[OF assms(2)] obtain k where
    k: "writable_at fs1 k" "fs2 = (k, File b) # fs1" by blast
  have "node_at fs1 rq = Some Dir"
    using rq walk_from_Found_node[of MAXSYMLINKS fs1 "[]" "dirname p" rq Dir]
    by (auto simp: walk_def split: if_splits)
  with k(1) have "rq \<noteq> k" by (auto simp: writable_at_def)
  with walk_after_write[OF k(1) rq, of b] k(2) show ?thesis by (simp add: fs_stat_def)
qed

lemma walk_of_lwalk_Missing:
  assumes "lwalk fs p = Missing k []"
  shows "walk fs p = Missing k []"
proof -
  have np: "p \<noteq> []" "\<not> PATH_MAX < path_bytes p"
    using assms by (auto simp: lwalk_def split: if_splits)
  then have p: "p = butlast p @ [last p]" by simp
  from assms np obtain rq where rq: "walk fs (butlast p) = Found rq Dir" "node_at fs (rq @ [last p]) = None"
      "k = rq @ [last p]"
    by (auto simp: lwalk_def split: outcome.splits node.splits option.splits)
  then have "walk_from MAXSYMLINKS fs [] (butlast p) = Found rq Dir"
    by (auto simp: walk_def split: if_splits)
  from walk_from_snoc_Found[OF dirs_above_Nil this, of "last p"] p
  obtain h' where "walk_from MAXSYMLINKS fs [] p = walk_from h' fs rq [last p]" by auto
  with rq np show ?thesis by (simp add: walk_def)
qed

text \<open>
  Claim C1. \<^verbatim>\<open>copyFile(src, dest, overwrite)\<close>:
  \<^item> if the destination exists and \<open>overwrite\<close> is false, nothing is written and the
    result is \<open>{created: false, updated: false}\<close>;
  \<^item> if it exists, \<open>overwrite\<close> is true and source and destination hold the same
    bytes, nothing is written and the result is \<open>{created: false, updated: false}\<close>;
  \<^item> if it exists, \<open>overwrite\<close> is true and the bytes differ, the destination is
    overwritten with the bytes of the source and the result is
    \<open>{created: false, updated: true}\<close>;
  \<^item> if it does not exist, the parent directories are created, the file is copied and
    the result is \<open>{created: true, updated: false}\<close>: whenever the call returns, it
    returns this, the directory of the destination is a directory and the destination
    reads as the source does; the only ways out are the failure to create the
    directories and the failure of the copy itself; and the call does return when the
    source is a readable file, the directories can be made and nothing stands at the
    destination.
\<close>

theorem copyFile_contract:
  "(pathExists w dest \<and> \<not> ov \<longrightarrow>
      copyFile src dest ov w = (Inr \<lparr>created = False, updated = False\<rparr>, w))
 \<and> (pathExists w dest \<and> ov \<and> fs_readFile (files w) src = Inr a \<and> fs_readFile (files w) dest = Inr a \<longrightarrow>
      copyFile src dest ov w = (Inr \<lparr>created = False, updated = False\<rparr>, w))
 \<and> (pathExists w dest \<and> ov \<and> fs_readFile (files w) src = Inr a \<and> fs_readFile (files w) dest = Inr b
      \<and> a \<noteq> b \<longrightarrow>
      (\<exists>k. copyFile src dest ov w =
              (Inr \<lparr>created = False, updated = True\<rparr>, w\<lparr>files := (k, File a) # files w\<rparr>)
          \<and> fs_readFile ((k, File a) # files w) dest = Inr a))
 \<and> (\<not> pathExists w dest \<longrightarrow>
      (case copyFile src dest ov w of
         (Inl e, w') \<Rightarrow>
           e = mkdir_failed (dirname dest)
           \<or> (\<exists>code. e = NodeError code ''copyfile'' dest)
       | (Inr r, w') \<Rightarrow>
           r = \<lparr>created = True, updated = False\<rparr>
           \<and> isDirectory_path w' (dirname dest)
           \<and> (\<exists>bytes. fs_readFile (files w') src = Inr bytes \<and> fs_readFile (files w') dest = Inr bytes)))
 \<and> (\<not> pathExists w dest \<and> fs_readFile (files w) src = Inr a
      \<and> fs_mkdir_p (files w) (dirname dest) = Inr fs1 \<and> lwalk fs1 dest = Missing k [] \<longrightarrow>
      copyFile src dest ov w = (Inr \<lparr>created = True, updated = False\<rparr>, w\<lparr>files := (k, File a) # fs1\<rparr>))"
proof (intro conjI impI)
  assume "pathExists w dest \<and> \<not> ov"
  then show "copyFile src dest ov w = (Inr \<lparr>created = False, updated = False\<rparr>, w)"
    by (simp add: copyFile_def)
next
  assume "pathExists w dest \<and> ov \<and> fs_readFile (files w) src = Inr a \<and> fs_readFile (files w) dest = Inr a"
  then show "copyFile src dest ov w = (Inr \<lparr>created = False, updated = False\<rparr>, w)"
    by (simp add: copyFile_def same_bytes_def)
next
  assume h: "pathExists w dest \<and> ov \<and> fs_readFile (files w) src = Inr a
             \<and> fs_readFile (files w) dest = Inr b \<and> a \<noteq> b"
  then obtain rd where rd: "walk (files w) dest = Found rd (File b)"
    by (auto simp: fs_readFile_def split: outcome.splits node.splits)
  then have wr: "fs_writeFile (files w) dest a = Inr ((rd, File a) # files w)"
    by (simp add: fs_writeFile_def)
  have ens: "ensureDirectoryExists (dirname dest) w = (Inr (), w)"
    using h by (simp add: ensureDirectoryExists_existing)
  have "copyFile src dest ov w =
          (Inr \<lparr>created = False, updated = True\<rparr>, w\<lparr>files := (rd, File a) # files w\<rparr>)"
    using h ens wr by (simp add: copyFile_def same_bytes_def fs_copyFile_def)
  moreover have "fs_readFile ((rd, File a) # files w) dest = Inr a"
    using fs_writeFile_read_back[OF wr] .
  ultimately show "\<exists>k. copyFile src dest ov w =
              (Inr \<lparr>created = False, updated = True\<rparr>, w\<lparr>files := (k, File a) # files w\<rparr>)
          \<and> fs_readFile ((k, File a) # files w) dest = Inr a"
    by blast
next
  assume ne: "\<not> pathExists w dest"
  obtain r1 w1 where ens: "ensureDirectoryExists (dirname dest) w = (r1, w1)"
    by (cases "ensureDirectoryExists (dirname dest) w")
  from ensureDirectoryExists_cases[OF ens]
  show "case copyFile src dest ov w of
         (Inl e, w') \<Rightarrow>
           e = mkdir_failed (dirname dest)
           \<or> (\<exists>code. e = NodeError code ''copyfile'' dest)
       | (Inr r, w') \<Rightarrow>
           r = \<lparr>created = True, updated = False\<rparr>
           \<and> isDirectory_path w' (dirname dest)
           \<and> (\<exists>bytes. fs_readFile (files w') src = Inr bytes \<and> fs_readFile (files w') dest = Inr bytes)"
  proof (elim disjE exE conjE)
    fix fs1 assume m: "fs_mkdir_p (files w) (dirname dest) = Inr fs1" "r1 = Inr ()" "w1 = w\<lparr>files := fs1\<rparr>"
    show ?thesis
    proof (cases "fs_copyFile fs1 src dest")
      case (Inl e)
      with ne ens m show ?thesis by (simp add: copyFile_def)
    next
      case (Inr fs2)
      then obtain bytes where wr: "fs_writeFile fs1 dest bytes = Inr fs2"
        by (auto simp: fs_copyFile_def split: sum.splits)
      from parent_after_write[OF m(1) wr] have "isDirectory_path (w\<lparr>files := fs2\<rparr>) (dirname dest)"
        by (simp add: isDirectory_path_def)
      with fs_copyFile_read_both[OF Inr] ne ens m Inr show ?thesis
        by (auto simp: copyFile_def)
    qed
  next
    assume m: "fs_mkdir_p (files w) (dirname dest) = Inl EEXIST" "r1 = Inr ()" "w1 = w"
    from fs_copyFile_fails_when_mkdir_fails[OF m(1), of src]
    obtain e' where "fs_copyFile (files w) src dest = Inl e'" by blast
    with ne ens m show ?thesis by (simp add: copyFile_def)
  next
    fix e assume m: "w1 = w" "r1 = Inl (mkdir_failed (dirname dest))"
    with ne ens show ?thesis by (simp add: copyFile_def)
  qed
next
  assume h: "\<not> pathExists w dest \<and> fs_readFile (files w) src = Inr a
      \<and> fs_mkdir_p (files w) (dirname dest) = Inr fs1 \<and> lwalk fs1 dest = Missing k []"
  then obtain rs where rs: "walk (files w) src = Found rs (File a)"
    by (auto simp: fs_readFile_def split: outcome.splits node.splits)
  from h walk_after_mkdir[OF _ rs, of "dirname dest" fs1]
  have src1: "fs_readFile fs1 src = Inr a" by (simp add: fs_readFile_def)
  from h walk_of_lwalk_Missing[of fs1 dest k]
  have "fs_writeFile fs1 dest a = Inr ((k, File a) # fs1)" by (simp add: fs_writeFile_def)
  with h src1 show "copyFile src dest ov w =
      (Inr \<lparr>created = True, updated = False\<rparr>, w\<lparr>files := (k, File a) # fs1\<rparr>)"
    by (simp add: copyFile_def ensureDirectoryExists_def fs_copyFile_def)
qed

theorem copyFile_contract_witness:
  "pathExists project_world [''proj'', ''out.md'']
   \<and> copyFile [''proj'', ''a.md''] [''proj'', ''out.md''] False project_world
       = (Inr \<lparr>created = False, updated = False\<rparr>, project_world)
   \<and> copyFile [''proj'', ''a.md''] [''proj'', ''same.md''] True project_world
       = (Inr \<lparr>created = False, updated = False\<rparr>, project_world)
   \<and> (\<exists>k. copyFile [''proj'', ''a.md''] [''proj'', ''out.md''] True project_world
            = (Inr \<lparr>created = False, updated = True\<rparr>,
               project_world\<lparr>files := (k, File ''X'') # files project_world\<rparr>)
          \<and> fs_readFile ((k, File ''X'') # files project_world) [''proj'', ''out.md''] = Inr ''X'')
   \<and> \<not> pathExists project_world [''proj'', ''new'', ''deep'', ''o.md'']
   \<and> copyFile [''proj'', ''a.md''] [''proj'', ''new'', ''deep'', ''o.md''] True project_world
       = (Inr \<lparr>created = True, updated = False\<rparr>,
          project_world\<lparr>files := ([''proj'', ''new'', ''deep'', ''o.md''], File ''X'')
                                   # mkdirs [''proj'', ''new''] [''deep''] (files project_world)\<rparr>)"
proof -
  have out: "pathExists project_world [''proj'', ''out.md'']" by code_simp
  have same: "pathExists project_world [''proj'', ''same.md'']" by code_simp
  have new: "\<not> pathExists project_world [''proj'', ''new'', ''deep'', ''o.md'']" by code_simp
  have a: "fs_readFile (files project_world) [''proj'', ''a.md''] = Inr ''X''" by code_simp
  have s: "fs_readFile (files project_world) [''proj'', ''same.md''] = Inr ''X''" by code_simp
  have o: "fs_readFile (files project_world) [''proj'', ''out.md''] = Inr ''Y''" by code_simp
  have m: "fs_mkdir_p (files project_world) (dirname [''proj'', ''new'', ''deep'', ''o.md''])
           = Inr (mkdirs [''proj'', ''new''] [''deep''] (files project_world))" by code_simp
  have l: "lwalk (mkdirs [''proj'', ''new''] [''deep''] (files project_world))
             [''proj'', ''new'', ''deep'', ''o.md'']
           = Missing [''proj'', ''new'', ''deep'', ''o.md''] []" by code_simp
  have c1: "copyFile [''proj'', ''a.md''] [''proj'', ''out.md''] False project_world
       = (Inr \<lparr>created = False, updated = False\<rparr>, project_world)"
    using copyFile_contract[of project_world "[''proj'', ''out.md'']" False "[''proj'', ''a.md'']",
        THEN conjunct1] out
    by simp
  have c2: "copyFile [''proj'', ''a.md''] [''proj'', ''same.md''] True project_world
       = (Inr \<lparr>created = False, updated = False\<rparr>, project_world)"
    using copyFile_contract[of project_world "[''proj'', ''same.md'']" True "[''proj'', ''a.md'']"
        "''X''", THEN conjunct2, THEN conjunct1] same a s
    by simp
  have c3: "\<exists>k. copyFile [''proj'', ''a.md''] [''proj'', ''out.md''] True project_world
            = (Inr \<lparr>created = False, updated = True\<rparr>,
               project_world\<lparr>files := (k, File ''X'') # files project_world\<rparr>)
          \<and> fs_readFile ((k, File ''X'') # files project_world) [''proj'', ''out.md''] = Inr ''X''"
    using copyFile_contract[of project_world "[''proj'', ''out.md'']" True "[''proj'', ''a.md'']"
        "''X''" "''Y''", THEN conjunct2, THEN conjunct2, THEN conjunct1] out a o
    by simp
  have c5: "copyFile [''proj'', ''a.md''] [''proj'', ''new'', ''deep'', ''o.md''] True project_world
       = (Inr \<lparr>created = True, updated = False\<rparr>,
          project_world\<lparr>files := ([''proj'', ''new'', ''deep'', ''o.md''], File ''X'')
                                   # mkdirs [''proj'', ''new''] [''deep''] (files project_world)\<rparr>)"
    using copyFile_contract[of project_world "[''proj'', ''new'', ''deep'', ''o.md'']" True
        "[''proj'', ''a.md'']" "''X''" _
        "mkdirs [''proj'', ''new''] [''deep''] (files project_world)"
        "[''proj'', ''new'', ''deep'', ''o.md'']",
        THEN conjunct2, THEN conjunct2, THEN conjunct2, THEN conjunct2] new a m l
    by simp
  show ?thesis
    using out new c1 c2 c3 c5 by blast
qed

section \<open>What copying leaves alone\<close>


lemma only_files_changed_upd: "only_files_changed w (w\<lparr>files := fs\<rparr>)"
  by (simp add: only_files_changed_def)






section \<open>symlinkOrCopy\<close>

lemma fs_symlink_type: "fs_symlink p fs t d ty = fs_symlink p fs t d ty'"
  by (simp add: fs_symlink_def)


lemma only_files_changed_logged: "only_files_changed w w' \<Longrightarrow> logged w' = logged w"
  by (cases w; cases w') (simp add: only_files_changed_def)

lemma symlinkOrCopy_after_failed_link:
  assumes "\<not> (pathExists w dest \<and> \<not> ov)"
    and "ensureDirectoryExists (dirname dest) w = (Inr (), w1)"
    and "fs_symlink (symlinkPermitted w1) (files w1) (relative (dirname dest) src) dest ty = Inl code"
  shows "symlinkOrCopy src dest ov isDir w =
    (if isDir
     then (case copyDirectory src dest ov (w1\<lparr>console := console w1 @ [symlink_warning code dest]\<rparr>) of
             (Inr result, w3) \<Rightarrow>
               (Inr \<lparr>created = (dir_created result > 0 \<and> \<not> pathExists w dest),
                     updated = (dir_created result > 0 \<and> pathExists w dest),
                     usedSymlink = False\<rparr>, w3)
           | (Inl fallbackError, w3) \<Rightarrow> (Inl (both_failed dest), w3))
     else (case copyFile src dest ov (w1\<lparr>console := console w1 @ [symlink_warning code dest]\<rparr>) of
             (Inr result, w3) \<Rightarrow>
               (Inr \<lparr>created = created result, updated = updated result, usedSymlink = False\<rparr>, w3)
           | (Inl fallbackError, w3) \<Rightarrow> (Inl (both_failed dest), w3)))"
proof -
  have "fs_symlink (symlinkPermitted w1) (files w1) (relative (dirname dest) src) dest ty' = Inl code" for ty'
    using assms(3) fs_symlink_type[of _ _ _ _ ty' ty] by simp
  note link = this
  let ?w2 = "w1\<lparr>console := console w1 @ [symlink_warning code dest]\<rparr>"
  obtain rd wd where d: "copyDirectory src dest ov ?w2 = (rd, wd)"
    by (cases "copyDirectory src dest ov ?w2")
  obtain rf wf where f: "copyFile src dest ov ?w2 = (rf, wf)"
    by (cases "copyFile src dest ov ?w2")
  have early: "(pathExists w dest \<and> \<not> ov) = False" using assms(1) by simp
  show ?thesis
  proof (cases isDir)
    case True
    with link assms(2) d early show ?thesis
      unfolding symlinkOrCopy_def Let_def
      by (cases rd) (auto simp del: copyDirectory.simps)
  next
    case False
    with link assms(2) f early show ?thesis
      unfolding symlinkOrCopy_def Let_def
      by (cases rf) auto
  qed
qed




text \<open>
  Claim C10. If the destination exists and \<open>overwrite\<close> is true, the symbolic link
  cannot be created, since the path is taken: the result of \<^verbatim>\<open>symlinkOrCopy\<close> is the one
  of the copy fallback, run after the warning, and never has \<open>usedSymlink = true\<close>.
  An existing destination is refreshed by copy, not turned into a link.
\<close>

theorem existing_destination_never_linked:
  assumes "pathExists w dest"
  shows "(\<exists>code. symlinkOrCopy src dest True isDir w =
            (if isDir
             then (case copyDirectory src dest True
                          (w\<lparr>console := console w @ [symlink_warning code dest]\<rparr>) of
                     (Inr result, w3) \<Rightarrow>
                       (Inr \<lparr>created = False, updated = (dir_created result > 0),
                             usedSymlink = False\<rparr>, w3)
                   | (Inl fallbackError, w3) \<Rightarrow> (Inl (both_failed dest), w3))
             else (case copyFile src dest True
                          (w\<lparr>console := console w @ [symlink_warning code dest]\<rparr>) of
                     (Inr result, w3) \<Rightarrow>
                       (Inr \<lparr>created = created result, updated = updated result,
                             usedSymlink = False\<rparr>, w3)
                   | (Inl fallbackError, w3) \<Rightarrow> (Inl (both_failed dest), w3))))
       \<and> (\<forall>ov r w'. symlinkOrCopy src dest ov isDir w = (Inr r, w') \<longrightarrow> \<not> usedSymlink r)"
proof -
  have pre: "\<not> (pathExists w dest \<and> \<not> True)" by simp
  have ens: "ensureDirectoryExists (dirname dest) w = (Inr (), w)"
    using assms by (rule ensureDirectoryExists_existing)
  from assms obtain n where "fs_stat (files w) dest = Inr n" by (auto simp: pathExists_stat)
  from fs_symlink_exists[OF this, of "symlinkPermitted w" "relative (dirname dest) src" SymlinkFile]
  obtain code where code: "fs_symlink (symlinkPermitted w) (files w) (relative (dirname dest) src)
                             dest SymlinkFile = Inl code" by blast
  note eq = symlinkOrCopy_after_failed_link[OF pre ens code, of isDir]
  let ?w2 = "w\<lparr>console := console w @ [symlink_warning code dest]\<rparr>"
  have first: "symlinkOrCopy src dest True isDir w =
            (if isDir
             then (case copyDirectory src dest True ?w2 of
                     (Inr result, w3) \<Rightarrow>
                       (Inr \<lparr>created = False, updated = (dir_created result > 0),
                             usedSymlink = False\<rparr>, w3)
                   | (Inl fallbackError, w3) \<Rightarrow> (Inl (both_failed dest), w3))
             else (case copyFile src dest True ?w2 of
                     (Inr result, w3) \<Rightarrow>
                       (Inr \<lparr>created = created result, updated = updated result,
                             usedSymlink = False\<rparr>, w3)
                   | (Inl fallbackError, w3) \<Rightarrow> (Inl (both_failed dest), w3)))"
  proof (cases isDir)
    case True
    obtain rd wd where d: "copyDirectory src dest True ?w2 = (rd, wd)"
      by (cases "copyDirectory src dest True ?w2")
    with eq True assms show ?thesis by (cases rd) (simp_all del: copyDirectory.simps)
  next
    case False
    with eq show ?thesis by simp
  qed
  have second: "\<not> usedSymlink r" if "symlinkOrCopy src dest ov isDir w = (Inr r, w')" for ov r w'
  proof (cases ov)
    case False
    with that assms show ?thesis by (auto simp: symlinkOrCopy_def)
  next
    case True
    with that first show ?thesis
      by (auto split: if_splits prod.splits sum.splits simp del: copyDirectory.simps)
  qed
  from first second show ?thesis by blast
qed

theorem existing_destination_never_linked_witness:
  "pathExists project_world [''proj'', ''out.md'']
   \<and> symlinkPermitted project_world
   \<and> symlinkOrCopy [''proj'', ''a.md''] [''proj'', ''out.md''] True False project_world
       = (Inr \<lparr>created = False, updated = True, usedSymlink = False\<rparr>,
          project_world\<lparr>files := ([''proj'', ''out.md''], File ''X'') # project_files,
                         console := [symlink_warning EEXIST [''proj'', ''out.md'']]\<rparr>)"
proof -
  have h: "pathExists project_world [''proj'', ''out.md'']" by code_simp
  have p: "symlinkPermitted project_world" by code_simp
  have v: "symlinkOrCopy [''proj'', ''a.md''] [''proj'', ''out.md''] True False project_world
       = (Inr \<lparr>created = False, updated = True, usedSymlink = False\<rparr>,
          project_world\<lparr>files := ([''proj'', ''out.md''], File ''X'') # project_files,
                         console := [symlink_warning EEXIST [''proj'', ''out.md'']]\<rparr>)"
    by code_simp
  from existing_destination_never_linked[where src = "[''proj'', ''a.md'']" and isDir = False,
      OF h, THEN conjunct2] v
  have "\<not> usedSymlink \<lparr>created = False, updated = True, usedSymlink = False\<rparr>" by blast
  with h p v show ?thesis by blast
qed

section \<open>The loops of the placement engine\<close>

lemma logger_emit_files [simp]: "files (logger_emit l m w) = files w"
  by (simp add: logger_emit_def)


lemma processAll_append:
  "processAll (rs1 @ rs2) root d acc w =
     (case processAll rs1 root d acc w of (acc', w') \<Rightarrow> processAll rs2 root d acc' w')"
  by (induction rs1 arbitrary: acc w) (auto split: prod.splits)

lemma processOutputs_dry_run:
  "processOutputs fr root True os acc w =
     (acc, w\<lparr>logged := logged w @ map (\<lambda>outputPath. (Info, dry_run_message outputPath)) os\<rparr>)"
proof (induction os arbitrary: w)
  case Nil
  then show ?case by simp
next
  case (Cons a os)
  then show ?case by (simp add: logger_emit_def)
qed

lemma add_no_result:
  "\<lparr>sync_created = sync_created acc + sync_created no_result,
    sync_updated = sync_updated acc + sync_updated no_result,
    sync_skipped = sync_skipped acc + sync_skipped no_result,
    sync_errors = sync_errors acc @ sync_errors no_result\<rparr> = acc"
  by (cases acc) (simp add: no_result_def)

lemma processAll_dry_run:
  "processAll frs root True acc w =
     (acc, w\<lparr>logged := logged w @
                concat (map (\<lambda>fr. map (\<lambda>outputPath. (Info, dry_run_message outputPath))
                                   (outputs (definition_of fr))) frs)\<rparr>)"
proof (induction frs arbitrary: w)
  case Nil
  then show ?case by simp
next
  case (Cons fr frs)
  then show ?case
    by (simp add: processFetchedResource_def processOutputs_dry_run add_no_result)
qed

lemma printSummary_files [simp]: "files (printSummary r d w) = files w"
proof -
  have f: "files (fold (\<lambda>error. logger_emit Info (g error)) es w0) = files w0" for g es w0
    by (induction es arbitrary: w0) simp_all
  show ?thesis by (simp add: printSummary_def Let_def f)
qed

text \<open>
  Claim C9. With the dry-run flag set, the engine logs
  \<^verbatim>\<open>[DRY RUN] Would process: <path>\<close> for every output, in order, and does nothing else:
  the world is the same but for these log lines, and no output counts as created,
  updated or skipped. The counts returned by a dry run are all zero, whatever the
  configuration and the plugins do; its list of errors is empty when the run reaches the
  placement and holds the one error otherwise.
\<close>

theorem dry_run_places_nothing:
  "processFetchedResource fr root True w =
     (no_result,
      w\<lparr>logged := logged w @
            map (\<lambda>outputPath. (Info, dry_run_message outputPath)) (outputs (definition_of fr))\<rparr>)
   \<and> processAll frs root True no_result w =
     (no_result,
      w\<lparr>logged := logged w @
            concat (map (\<lambda>fr. map (\<lambda>outputPath. (Info, dry_run_message outputPath))
                               (outputs (definition_of fr))) frs)\<rparr>)
   \<and> sync_created (fst (runSync loadConfig True w)) = 0
   \<and> sync_updated (fst (runSync loadConfig True w)) = 0
   \<and> sync_skipped (fst (runSync loadConfig True w)) = 0
   \<and> (case loadConfig w of
         (Inl error, w1) \<Rightarrow> sync_errors (fst (runSync loadConfig True w)) = [formatError error]
       | (Inr (resources, plugins), w1) \<Rightarrow>
           (case fetchResources plugins resources (cwd w) w1 of
              (Inl error, w2) \<Rightarrow> sync_errors (fst (runSync loadConfig True w)) = [formatError error]
            | (Inr fetchedResources, w2) \<Rightarrow>
                sync_errors (fst (runSync loadConfig True w)) = []
                \<and> files (snd (runSync loadConfig True w)) = files w2))"
proof -
  obtain r0 w1 where lc: "loadConfig w = (r0, w1)" by (cases "loadConfig w")
  have run: "sync_created (fst (runSync loadConfig True w)) = 0
   \<and> sync_updated (fst (runSync loadConfig True w)) = 0
   \<and> sync_skipped (fst (runSync loadConfig True w)) = 0
   \<and> (case loadConfig w of
         (Inl error, w1) \<Rightarrow> sync_errors (fst (runSync loadConfig True w)) = [formatError error]
       | (Inr (resources, plugins), w1) \<Rightarrow>
           (case fetchResources plugins resources (cwd w) w1 of
              (Inl error, w2) \<Rightarrow> sync_errors (fst (runSync loadConfig True w)) = [formatError error]
            | (Inr fetchedResources, w2) \<Rightarrow>
                sync_errors (fst (runSync loadConfig True w)) = []
                \<and> files (snd (runSync loadConfig True w)) = files w2))"
  proof (cases r0)
    case (Inl e)
    with lc show ?thesis by (simp add: runSync_def Let_def no_result_def)
  next
    case (Inr rp)
    obtain resources plugins where rp: "rp = (resources, plugins)" by (cases rp)
    obtain r2 w2 where fe: "fetchResources plugins resources (cwd w) w1 = (r2, w2)"
      by (cases "fetchResources plugins resources (cwd w) w1")
    show ?thesis
    proof (cases r2)
      case (Inl e)
      with lc Inr rp fe show ?thesis by (simp add: runSync_def Let_def no_result_def)
    next
      case fetched: (Inr frs')
      with lc Inr rp fe show ?thesis
        by (simp add: runSync_def Let_def processAll_dry_run) (simp add: no_result_def)
    qed
  qed
  show ?thesis
    using run by (simp add: processFetchedResource_def processOutputs_dry_run processAll_dry_run)
qed


theorem dry_run_places_nothing_witness:
  "processAll [local_file [''proj'', ''a.md''] True [''n1.md'', ''sub/n2.md''],
               remote_text ''T'' True [''n3.md'']] [''proj''] True no_result project_world =
     (no_result,
      project_world\<lparr>logged :=
        [(Info, ''[DRY RUN] Would process: n1.md''),
         (Info, ''[DRY RUN] Would process: sub/n2.md''),
         (Info, ''[DRY RUN] Would process: n3.md'')]\<rparr>)"
proof -
  have "logged project_world = []" by code_simp
  then show ?thesis
    using dry_run_places_nothing[of "local_file [''proj'', ''a.md''] True [''n1.md'', ''sub/n2.md'']"
        "[''proj'']" project_world
        "[local_file [''proj'', ''a.md''] True [''n1.md'', ''sub/n2.md''],
          remote_text ''T'' True [''n3.md'']]", THEN conjunct2, THEN conjunct1]
    by (simp add: local_file_def remote_text_def dry_run_message_def)
qed

section \<open>Failures of single outputs\<close>


lemma processOutputs_created:
  assumes "placeResourceAtOutput fr (resolve_path root outputPath) w = (Inr res, w1)"
    and "placed_created res > 0"
  shows "processOutputs fr root False (outputPath # rest) acc w =
           processOutputs fr root False rest
             (acc\<lparr>sync_created := sync_created acc + placed_created res,
                  sync_updated := sync_updated acc + placed_updated res\<rparr>)
             (logger_emit Success (created_message outputPath) w1)"
  using assms by (simp add: Let_def)




section \<open>The fetch orchestrator\<close>

lemma fetchLoop_append:
  "fetchLoop plugins (pre @ rs) root acc w =
     (case fetchLoop plugins pre root acc w of
        (Inl e, w1) \<Rightarrow> (Inl e, w1)
      | (Inr frs, w1) \<Rightarrow> fetchLoop plugins rs root frs w1)"
proof (induction pre arbitrary: acc w)
  case Nil
  then show ?case by simp
next
  case (Cons r pre)
  obtain x w1 where f: "fetchSingleResource plugins r root w = (x, w1)"
    by (cases "fetchSingleResource plugins r root w")
  show ?case using f Cons by (cases x) auto
qed

lemma fetchSingleResource_definition:
  "fetchSingleResource plugins r root w = (Inr fr, w') \<Longrightarrow> definition_of fr = r"
  by (auto simp: fetchSingleResource_def split: sum.splits prod.splits if_splits)

lemma fetchLoop_definitions:
  "fetchLoop plugins rs root acc w = (Inr frs, w') \<Longrightarrow>
     map definition_of frs = map definition_of acc @ rs"
proof (induction rs arbitrary: acc w)
  case Nil
  then show ?case by simp
next
  case (Cons r rs)
  obtain x w1 where f: "fetchSingleResource plugins r root w = (x, w1)"
    by (cases "fetchSingleResource plugins r root w")
  show ?case
  proof (cases x)
    case (Inl e)
    with f Cons.prems show ?thesis by (simp split: if_splits)
  next
    case (Inr fr)
    with f Cons.prems have "fetchLoop plugins rs root (acc @ [fr]) w1 = (Inr frs, w')" by simp
    from Cons.IH[OF this] fetchSingleResource_definition[OF f[unfolded Inr]]
    show ?thesis by simp
  qed
qed

lemma fetchSingleResource_error:
  assumes "fetchSingleResource plugins r root w = (Inl e, w')"
  shows "escapes plugins r root (if is_ResourceError e then e else resource_fetch_failed e)
         \<and> is_ResourceError (if is_ResourceError e then e else resource_fetch_failed e)"
proof (cases "plugins (plugin r)")
  case None
  with assms have "e = PluginNotFoundError (plugin r)"
    by (simp add: fetchSingleResource_def registry_resolve_def)
  with None show ?thesis
    by (simp add: escapes_def is_ResourceError_def resource_fetch_failed_def formatError_def
                  error_message_def)
next
  case (Some p)
  obtain x w1 where f: "fetch p (pluginConfig r) root w = (x, w1)"
    by (cases "fetch p (pluginConfig r) root w")
  show ?thesis
  proof (cases x)
    case (Inr res)
    with assms Some f show ?thesis by (simp add: fetchSingleResource_def registry_resolve_def)
  next
    case (Inl error)
    show ?thesis
    proof (cases "is_ResourceError error")
      case True
      with assms Some f Inl have "e = error"
        by (simp add: fetchSingleResource_def registry_resolve_def)
      with True Some f Inl show ?thesis by (auto simp: escapes_def)
    next
      case False
      with assms Some f Inl have e: "e = plugin_fetch_failed (plugin r) error"
        by (simp add: fetchSingleResource_def registry_resolve_def)
      then have "is_ResourceError e" by (simp add: plugin_fetch_failed_def is_ResourceError_def)
      with e False Some f Inl show ?thesis
        by (auto simp: escapes_def plugin_fetch_failed_def formatError_def)
    qed
  qed
qed

lemma fetchLoop_error:
  "fetchLoop plugins rs root acc w = (Inl e, w') \<Longrightarrow>
     is_ResourceError e \<and> (\<exists>r \<in> set rs. escapes plugins r root e)"
proof (induction rs arbitrary: acc w)
  case Nil
  then show ?case by simp
next
  case (Cons r rs)
  obtain x w1 where f: "fetchSingleResource plugins r root w = (x, w1)"
    by (cases "fetchSingleResource plugins r root w")
  show ?case
  proof (cases x)
    case (Inl e0)
    with f Cons.prems have "e = (if is_ResourceError e0 then e0 else resource_fetch_failed e0)"
      by (simp split: if_splits)
    with fetchSingleResource_error[OF f[unfolded Inl]] show ?thesis by auto
  next
    case (Inr fr)
    with f Cons.prems have "fetchLoop plugins rs root (acc @ [fr]) w1 = (Inl e, w')" by simp
    from Cons.IH[OF this] show ?thesis by auto
  qed
qed

text \<open>
  Claim C4. \<^verbatim>\<open>fetchResources\<close> takes the resources in the order given: the fetched
  resources it returns are those of the input list, in this order. An error thrown while
  one resource is fetched ends the whole call, in the world that fetch left, whatever
  resources follow. Every error that leaves the call is a \<^verbatim>\<open>ResourceError\<close>: the one a
  plugin threw, unchanged, or a wrapper whose message holds the name of the plugin and
  the message of the error.
\<close>

theorem fetchResources_contract:
  "(fetchResources plugins rs root w = (Inr frs, w') \<longrightarrow> map definition_of frs = rs)
   \<and> (fetchResources plugins pre root w = (Inr frs1, w1)
      \<and> fetchSingleResource plugins r root w1 = (Inl e, w2) \<longrightarrow>
      fetchResources plugins (pre @ r # post) root w =
        (Inl (if is_ResourceError e then e else resource_fetch_failed e), w2))
   \<and> (fetchResources plugins rs root w = (Inl e', w') \<longrightarrow>
      is_ResourceError e' \<and> (\<exists>r \<in> set rs. escapes plugins r root e'))"
proof -
  have order: "map definition_of frs = rs" if "fetchResources plugins rs root w = (Inr frs, w')"
    using that fetchLoop_definitions[of plugins rs root "[]" w frs w']
    by (simp add: fetchResources_def)
  have abort: "fetchResources plugins (pre @ r # post) root w =
        (Inl (if is_ResourceError e then e else resource_fetch_failed e), w2)"
    if "fetchResources plugins pre root w = (Inr frs1, w1)
        \<and> fetchSingleResource plugins r root w1 = (Inl e, w2)"
    using that by (simp add: fetchResources_def fetchLoop_append)
  have kind: "is_ResourceError e' \<and> (\<exists>r \<in> set rs. escapes plugins r root e')"
    if "fetchResources plugins rs root w = (Inl e', w')"
    using that fetchLoop_error[of plugins rs root "[]" w e' w']
    by (simp add: fetchResources_def)
  from order abort kind show ?thesis by blast
qed


theorem fetchResources_contract_witness:
  "fetchResources some_plugins [resource_of ''text'' [''a''], resource_of ''text'' [''b'']]
       [''proj''] project_world
     = (Inr [\<lparr>definition_of = resource_of ''text'' [''a''], localPath = None, isDirectory = False,
               content = Some ''T'', pluginMetadata = None\<rparr>,
             \<lparr>definition_of = resource_of ''text'' [''b''], localPath = None, isDirectory = False,
               content = Some ''T'', pluginMetadata = None\<rparr>],
        project_world\<lparr>console := [''fetch text'', ''fetch text'']\<rparr>)
   \<and> fetchResources some_plugins
       [resource_of ''text'' [''a''], resource_of ''failing'' [''b''], resource_of ''text'' [''c'']]
       [''proj''] project_world
     = (Inl (ResourceError ''Failed to fetch with plugin \"failing\": Plugin \"failing\": no route''
               (Some ''failing'')),
        project_world\<lparr>console := [''fetch text'', ''fetch failing'']\<rparr>)
   \<and> fetchResources some_plugins
       [resource_of ''text'' [''a''], resource_of ''refusing'' [''b''], resource_of ''text'' [''c'']]
       [''proj''] project_world
     = (Inl (ResourceError ''HTTP 404 Not Found'' (Some ''https://example.org/x'')),
        project_world\<lparr>console := [''fetch text'', ''fetch refusing'']\<rparr>)
   \<and> fetchResources some_plugins
       [resource_of ''text'' [''a''], resource_of ''nosuch'' [''b''], resource_of ''text'' [''c'']]
       [''proj''] project_world
     = (Inl (ResourceError ''Failed to fetch resource: Plugin not found: nosuch'' None),
        project_world\<lparr>console := [''fetch text'']\<rparr>)"
proof -
  let ?w1 = "project_world\<lparr>console := [''fetch text'']\<rparr>"
  let ?fa = "\<lparr>definition_of = resource_of ''text'' [''a''], localPath = None, isDirectory = False,
               content = Some ''T'', pluginMetadata = None\<rparr>"
  have two: "fetchResources some_plugins [resource_of ''text'' [''a''], resource_of ''text'' [''b'']]
       [''proj''] project_world
     = (Inr [?fa,
             \<lparr>definition_of = resource_of ''text'' [''b''], localPath = None, isDirectory = False,
               content = Some ''T'', pluginMetadata = None\<rparr>],
        project_world\<lparr>console := [''fetch text'', ''fetch text'']\<rparr>)"
    by code_simp
  have pre: "fetchResources some_plugins [resource_of ''text'' [''a'']] [''proj''] project_world
             = (Inr [?fa], ?w1)"
    by code_simp
  have f: "fetchSingleResource some_plugins (resource_of ''failing'' [''b'']) [''proj''] ?w1
           = (Inl (ResourceError ''Failed to fetch with plugin \"failing\": Plugin \"failing\": no route''
               (Some ''failing'')),
              project_world\<lparr>console := [''fetch text'', ''fetch failing'']\<rparr>)"
    by code_simp
  have r: "fetchSingleResource some_plugins (resource_of ''refusing'' [''b'']) [''proj''] ?w1
           = (Inl (ResourceError ''HTTP 404 Not Found'' (Some ''https://example.org/x'')),
              project_world\<lparr>console := [''fetch text'', ''fetch refusing'']\<rparr>)"
    by code_simp
  have n: "fetchSingleResource some_plugins (resource_of ''nosuch'' [''b'']) [''proj''] ?w1
           = (Inl (PluginNotFoundError ''nosuch''), ?w1)"
    by code_simp
  have m: "resource_fetch_failed (PluginNotFoundError ''nosuch'')
           = ResourceError ''Failed to fetch resource: Plugin not found: nosuch'' None"
    by code_simp
  note abort = fetchResources_contract[where plugins = some_plugins and root = "[''proj'']"
      and w = project_world and pre = "[resource_of ''text'' [''a'']]" and ?w1.0 = ?w1
      and ?frs1.0 = "[?fa]" and post = "[resource_of ''text'' [''c'']]",
      THEN conjunct2, THEN conjunct1, rule_format]
  have c1: "fetchResources some_plugins
       [resource_of ''text'' [''a''], resource_of ''failing'' [''b''], resource_of ''text'' [''c'']]
       [''proj''] project_world
     = (Inl (ResourceError ''Failed to fetch with plugin \"failing\": Plugin \"failing\": no route''
               (Some ''failing'')),
        project_world\<lparr>console := [''fetch text'', ''fetch failing'']\<rparr>)"
    using abort[OF conjI[OF pre f]] by (simp add: is_ResourceError_def)
  have c2: "fetchResources some_plugins
       [resource_of ''text'' [''a''], resource_of ''refusing'' [''b''], resource_of ''text'' [''c'']]
       [''proj''] project_world
     = (Inl (ResourceError ''HTTP 404 Not Found'' (Some ''https://example.org/x'')),
        project_world\<lparr>console := [''fetch text'', ''fetch refusing'']\<rparr>)"
    using abort[OF conjI[OF pre r]] by (simp add: is_ResourceError_def)
  have c3: "fetchResources some_plugins
       [resource_of ''text'' [''a''], resource_of ''nosuch'' [''b''], resource_of ''text'' [''c'']]
       [''proj''] project_world
     = (Inl (ResourceError ''Failed to fetch resource: Plugin not found: nosuch'' None), ?w1)"
    using abort[OF conjI[OF pre n]] m by (simp add: is_ResourceError_def)
  from two c1 c2 c3 show ?thesis by blast
qed

section \<open>The invariant of fetched resources\<close>

lemma fetchSingleResource_mirrors:
  assumes "fetchSingleResource plugins r root w = (Inr fr, w')"
  shows "mirrors plugins root fr"
proof -
  from assms obtain p where p: "plugins (plugin r) = Some p"
    by (auto simp: fetchSingleResource_def registry_resolve_def split: option.splits)
  obtain x w1 where f: "fetch p (pluginConfig r) root w = (x, w1)"
    by (cases "fetch p (pluginConfig r) root w")
  from assms p f obtain result where x: "x = Inr result"
    by (cases x) (auto simp: fetchSingleResource_def registry_resolve_def split: if_splits)
  from assms p f x have fr: "fr = \<lparr>definition_of = r,
                     localPath = PluginResult.localPath result,
                     isDirectory = (case PluginResult.isDirectory result of
                                      Some b \<Rightarrow> b | None \<Rightarrow> False),
                     content = PluginResult.content result,
                     pluginMetadata = metadata result\<rparr>"
    by (simp add: fetchSingleResource_def registry_resolve_def)
  have inv: "resource_invariant fr = result_invariant result"
    unfolding fr by (auto simp: resource_invariant_def result_invariant_def split: option.splits)
  have dir: "isDirectory fr = (PluginResult.isDirectory result = Some True)"
    unfolding fr by (auto split: option.splits)
  show ?thesis
    unfolding mirrors_def
    using p f x inv dir by (intro exI[of _ p] exI[of _ result] exI[of _ w] exI[of _ w1]) (simp add: fr)
qed

lemma fetchLoop_mirrors:
  "fetchLoop plugins rs root acc w = (Inr frs, w') \<Longrightarrow> \<forall>fr \<in> set acc. mirrors plugins root fr \<Longrightarrow>
     \<forall>fr \<in> set frs. mirrors plugins root fr"
proof (induction rs arbitrary: acc w)
  case Nil
  then show ?case by simp
next
  case (Cons r rs)
  obtain x w1 where f: "fetchSingleResource plugins r root w = (x, w1)"
    by (cases "fetchSingleResource plugins r root w")
  show ?case
  proof (cases x)
    case (Inl e)
    with f Cons.prems show ?thesis by (simp split: if_splits)
  next
    case (Inr fr)
    with f Cons.prems have l: "fetchLoop plugins rs root (acc @ [fr]) w1 = (Inr frs, w')" by simp
    have "\<forall>fr \<in> set (acc @ [fr]). mirrors plugins root fr"
      using Cons.prems(2) fetchSingleResource_mirrors[OF f[unfolded Inr]] by simp
    from Cons.IH[OF l this] show ?thesis .
  qed
qed

text \<open>
  Claim C8, as the code has it. The orchestrator does not bring a plugin result into the
  shape of the invariant: a fetched resource carries the content, the local path and the
  metadata of the result as they are, and the directory flag with false for a missing
  one. So a fetched resource satisfies the invariant of the data model exactly when the
  result of its plugin does.
\<close>

theorem fetched_resource_mirrors_result:
  "fetchResources plugins rs root w = (Inr frs, w') \<Longrightarrow> fr \<in> set frs \<Longrightarrow> mirrors plugins root fr"
  using fetchLoop_mirrors[of plugins rs root "[]" w frs w'] by (simp add: fetchResources_def)

theorem fetched_resource_mirrors_result_witness:
  "fetchResources some_plugins [resource_of ''text'' [''a'']] [''proj''] project_world
     = (Inr [\<lparr>definition_of = resource_of ''text'' [''a''], localPath = None, isDirectory = False,
               content = Some ''T'', pluginMetadata = None\<rparr>],
        project_world\<lparr>console := [''fetch text'']\<rparr>)
   \<and> mirrors some_plugins [''proj'']
        \<lparr>definition_of = resource_of ''text'' [''a''], localPath = None, isDirectory = False,
          content = Some ''T'', pluginMetadata = None\<rparr>
   \<and> resource_invariant
        \<lparr>definition_of = resource_of ''text'' [''a''], localPath = None, isDirectory = False,
          content = Some ''T'', pluginMetadata = None\<rparr>"
proof -
  have run: "fetchResources some_plugins [resource_of ''text'' [''a'']] [''proj''] project_world
     = (Inr [\<lparr>definition_of = resource_of ''text'' [''a''], localPath = None, isDirectory = False,
               content = Some ''T'', pluginMetadata = None\<rparr>],
        project_world\<lparr>console := [''fetch text'']\<rparr>)"
    by code_simp
  have inv: "resource_invariant
        \<lparr>definition_of = resource_of ''text'' [''a''], localPath = None, isDirectory = False,
          content = Some ''T'', pluginMetadata = None\<rparr>"
    by (simp add: resource_invariant_def)
  from fetched_resource_mirrors_result[OF run] inv run show ?thesis by simp
qed

text \<open>
  Claim C8 as stated fails: a plugin result with both a content and a local path, and
  the directory flag set, comes out of the orchestrator as it went in.
\<close>

theorem fetched_resource_invariant_counterexample:
  "fetchResources some_plugins [resource_of ''careless'' [''o'']] [''proj''] project_world
     = (Inr [\<lparr>definition_of = resource_of ''careless'' [''o''],
               localPath = Some [''proj'', ''a.md''], isDirectory = True,
               content = Some ''T'', pluginMetadata = None\<rparr>],
        project_world\<lparr>console := [''fetch careless'']\<rparr>)
   \<and> \<not> resource_invariant
        \<lparr>definition_of = resource_of ''careless'' [''o''],
          localPath = Some [''proj'', ''a.md''], isDirectory = True,
          content = Some ''T'', pluginMetadata = None\<rparr>"
proof -
  have run: "fetchResources some_plugins [resource_of ''careless'' [''o'']] [''proj''] project_world
     = (Inr [\<lparr>definition_of = resource_of ''careless'' [''o''],
               localPath = Some [''proj'', ''a.md''], isDirectory = True,
               content = Some ''T'', pluginMetadata = None\<rparr>],
        project_world\<lparr>console := [''fetch careless'']\<rparr>)"
    by code_simp
  then show ?thesis by (simp add: resource_invariant_def)
qed

section \<open>Loading a plugin module\<close>










section \<open>Overwrite false\<close>







section \<open>A second run\<close>













end
